theory Spec2Isabelle
  imports Complex_Main "HOL-Library.AList" "HOL-Library.Word"
begin

section \<open>Uplink Monitor: the data loader, the entity index and the visibility engine\<close>

text \<open>
  A shallow embedding of \<^verbatim>\<open>js/main.js\<close>. JavaScript strings are sequences of
  16-bit code units; a value that may be \<^verbatim>\<open>undefined\<close> or \<^verbatim>\<open>null\<close> is an
  \<open>option\<close>; a JavaScript \<^verbatim>\<open>Map\<close> is an association list in insertion order
  (\<open>AList.update\<close> is \<^verbatim>\<open>Map.prototype.set\<close>, \<open>map_of\<close> is
  \<^verbatim>\<open>Map.prototype.get\<close>); Leaflet objects (markers, polylines) are references into
  a store, and a Leaflet layer group is the set of references it holds.
\<close>

subsection \<open>Strings and numbers of the host language\<close>

type_synonym js_string = "16 word list"

text \<open>An identifier property after normalisation: \<^verbatim>\<open>null\<close> or a string.\<close>

type_synonym js_id = "js_string option"

definition lit :: "string \<Rightarrow> js_string" where
  "lit cs = map of_char cs"

text \<open>
  The code units that \<^verbatim>\<open>String.prototype.trim\<close> and \<^verbatim>\<open>Number\<close> strip:
  ECMAScript's WhiteSpace and LineTerminator productions (TAB, LF, VT, FF, CR, SP, NBSP,
  the Unicode space separators, LS, PS and the byte order mark).
\<close>

definition isWhiteSpace :: "16 word \<Rightarrow> bool" where
  "isWhiteSpace c =
     (c = 0x9 \<or> c = 0xA \<or> c = 0xB \<or> c = 0xC \<or> c = 0xD \<or> c = 0x20 \<or> c = 0xA0 \<or>
      c = 0x1680 \<or> (0x2000 \<le> c \<and> c \<le> 0x200A) \<or> c = 0x2028 \<or> c = 0x2029 \<or>
      c = 0x202F \<or> c = 0x205F \<or> c = 0x3000 \<or> c = 0xFEFF)"

definition trim :: "js_string \<Rightarrow> js_string" where
  "trim s = rev (dropWhile isWhiteSpace (rev (dropWhile isWhiteSpace s)))"

text \<open>
  A JavaScript number: a finite double (its exact value, a rational; the sign of zero is
  not kept, both zeros being falsy), \<^verbatim>\<open>NaN\<close>, or an infinity.
\<close>

datatype jsnum = JFinite rat | JNaN | JInfinity bool

text \<open>
  \<^verbatim>\<open>Number(x)\<close> for a CSV cell: \<^verbatim>\<open>undefined\<close> gives \<^verbatim>\<open>NaN\<close>; a string is
  stripped of white space, the empty rest is \<open>+0\<close>, and any other rest is read as a
  numeric literal and rounded to a double. That last step (the literal grammar and the
  rounding) belongs to the host language and is the parameter \<open>numLit\<close>.
\<close>

definition jsNumber :: "(js_string \<Rightarrow> jsnum) \<Rightarrow> js_string option \<Rightarrow> jsnum" where
  "jsNumber numLit x =
     (case x of
        None \<Rightarrow> JNaN
      | Some s \<Rightarrow> (if trim s = [] then JFinite 0 else numLit (trim s)))"

text \<open>
  An instance of the parameter for worked examples: unsigned decimal integers of at most
  fifteen digits, which a double holds exactly. Every other string is left as \<^verbatim>\<open>NaN\<close>
  here; the theorems below hold for every instance.
\<close>

definition isDigit :: "16 word \<Rightarrow> bool" where
  "isDigit c = (0x30 \<le> c \<and> c \<le> 0x39)"

definition decimalLit :: "js_string \<Rightarrow> jsnum" where
  "decimalLit s =
     (if s \<noteq> [] \<and> length s \<le> 15 \<and> list_all isDigit s
      then JFinite (of_nat (foldl (\<lambda>n c. 10 * n + (unat c - 48)) 0 s))
      else JNaN)"

text \<open>\<^verbatim>\<open>function toNum(x) { const n = Number(x); return Number.isFinite(n) ? n : null; }\<close>\<close>

definition toNum :: "(js_string \<Rightarrow> jsnum) \<Rightarrow> js_string option \<Rightarrow> rat option" where
  "toNum numLit x = (case jsNumber numLit x of JFinite n \<Rightarrow> Some n | _ \<Rightarrow> None)"

text \<open>\<^verbatim>\<open>(x ?? "").toString().trim()\<close>\<close>

definition trimCell :: "js_string option \<Rightarrow> js_string" where
  "trimCell x = trim (case x of None \<Rightarrow> [] | Some s \<Rightarrow> s)"

text \<open>
  \<^verbatim>\<open>function normalizeId(x) { const s = (x ?? "").toString().trim();
  return s.length ? s : null; }\<close>
\<close>

definition normalizeId :: "js_string option \<Rightarrow> js_id" where
  "normalizeId x = (let s = trimCell x in if length s \<noteq> 0 then Some s else None)"

text \<open>Truthiness of a string-or-null and of a number-or-null.\<close>

definition truthy_id :: "js_id \<Rightarrow> bool" where
  "truthy_id x = (case x of None \<Rightarrow> False | Some s \<Rightarrow> s \<noteq> [])"

definition truthy_num :: "rat option \<Rightarrow> bool" where
  "truthy_num x = (case x of None \<Rightarrow> False | Some n \<Rightarrow> n \<noteq> 0)"

subsection \<open>Rows\<close>

text \<open>
  A row as PapaParse returns it with \<^verbatim>\<open>header: true, dynamicTyping: false\<close>: each
  column of the header that the row reaches holds a string, any other property is
  \<^verbatim>\<open>undefined\<close>.
\<close>

datatype column =
  Col_brgy_id | Col_barangay | Col_lat | Col_lon | Col_city | Col_city_id |
  Col_province | Col_province_id

type_synonym raw_row = "column \<Rightarrow> js_string option"

text \<open>
  The normalised rows. The spread \<^verbatim>\<open>...r\<close> also copies the columns that the program
  never reads; they are left out.
\<close>

record barangay =
  b_brgy_id :: js_id
  b_city_id :: js_id
  b_barangay :: js_string
  b_city :: js_string
  b_lat :: "rat option"
  b_lon :: "rat option"

record city =
  c_city_id :: js_id
  c_province_id :: js_id
  c_city :: js_string
  c_province :: js_string
  c_lat :: "rat option"
  c_lon :: "rat option"

record province =
  p_province_id :: js_id
  p_province :: js_string
  p_lat :: "rat option"
  p_lon :: "rat option"

definition barangayOfRow :: "(js_string \<Rightarrow> jsnum) \<Rightarrow> raw_row \<Rightarrow> barangay" where
  "barangayOfRow numLit r =
     \<lparr> b_brgy_id = normalizeId (r Col_brgy_id),
       b_city_id = normalizeId (r Col_city_id),
       b_barangay = trimCell (r Col_barangay),
       b_city = trimCell (r Col_city),
       b_lat = toNum numLit (r Col_lat),
       b_lon = toNum numLit (r Col_lon) \<rparr>"

definition cityOfRow :: "(js_string \<Rightarrow> jsnum) \<Rightarrow> raw_row \<Rightarrow> city" where
  "cityOfRow numLit r =
     \<lparr> c_city_id = normalizeId (r Col_city_id),
       c_province_id = normalizeId (r Col_province_id),
       c_city = trimCell (r Col_city),
       c_province = trimCell (r Col_province),
       c_lat = toNum numLit (r Col_lat),
       c_lon = toNum numLit (r Col_lon) \<rparr>"

definition provinceOfRow :: "(js_string \<Rightarrow> jsnum) \<Rightarrow> raw_row \<Rightarrow> province" where
  "provinceOfRow numLit r =
     \<lparr> p_province_id = normalizeId (r Col_province_id),
       p_province = trimCell (r Col_province),
       p_lat = toNum numLit (r Col_lat),
       p_lon = toNum numLit (r Col_lon) \<rparr>"

text \<open>The three \<^verbatim>\<open>.map(...).filter(...)\<close> pipelines of \<^verbatim>\<open>main\<close>.\<close>

definition barangaysAll :: "(js_string \<Rightarrow> jsnum) \<Rightarrow> raw_row list \<Rightarrow> barangay list" where
  "barangaysAll numLit barangaysRaw =
     filter (\<lambda>r. truthy_id (b_brgy_id r) \<and> truthy_id (b_city_id r) \<and>
                 truthy_num (b_lat r) \<and> truthy_num (b_lon r))
       (map (barangayOfRow numLit) barangaysRaw)"

definition citiesAll :: "(js_string \<Rightarrow> jsnum) \<Rightarrow> raw_row list \<Rightarrow> city list" where
  "citiesAll numLit citiesRaw =
     filter (\<lambda>r. truthy_id (c_city_id r)) (map (cityOfRow numLit) citiesRaw)"

definition provincesAll :: "(js_string \<Rightarrow> jsnum) \<Rightarrow> raw_row list \<Rightarrow> province list" where
  "provincesAll numLit provincesRaw =
     filter (\<lambda>r. truthy_id (p_province_id r)) (map (provinceOfRow numLit) provincesRaw)"

subsection \<open>State and indexes\<close>

datatype node_type = Province | City | Barangay

text \<open>
  The five icon objects: \<^verbatim>\<open>brgyIconDisabled\<close> is the default pin with the class
  \<^verbatim>\<open>marker-disabled\<close>; \<^verbatim>\<open>disabledAwesome\<close> is the grey "ban" marker.
\<close>

datatype icon =
  brgyIconEnabled | brgyIconDisabled | cityIconEnabled | provinceIconEnabled | disabledAwesome

text \<open>
  One row of the checkbox tree, as \<^verbatim>\<open>buildNodeRow\<close> creates it: the checkbox (with
  the state it is created in), the label button and the count shown beside it. What the
  user does to a checkbox later reaches the program as the argument of its change handler.
\<close>

record node_row =
  row_type :: node_type
  row_id :: js_id
  row_checked :: bool
  row_label :: js_string
  row_meta :: "nat option"

type_synonym city_li = "node_row \<times> node_row list"
type_synonym prov_li = "node_row \<times> city_li list"

text \<open>
  The module's variables. \<open>next_ref\<close> is the identity that the next Leaflet object
  gets; \<open>marker_latlng\<close>, \<open>marker_icon\<close> and \<open>line_latlngs\<close> are the store
  of the objects created so far. The map view, the zoom presets and the status line are
  not modelled.
\<close>

record ui_state =
  enabled :: "node_type \<Rightarrow> (js_id \<times> bool) list"
  markers :: "node_type \<Rightarrow> (js_id \<times> nat) list"
  linkBrgyToCity :: "(js_id \<times> nat) list"
  linkCityToProv :: "(js_id \<times> nat) list"
  barangays :: "barangay list"
  cities :: "city list"
  provinces :: "province list"
  cityById :: "(js_id \<times> city) list"
  provinceById :: "(js_id \<times> province) list"
  barangaysByCity :: "(js_id \<times> barangay list) list"
  layerBrgy :: "nat set"
  layerCity :: "nat set"
  layerProv :: "nat set"
  layerLinks :: "nat set"
  marker_latlng :: "nat \<rightharpoonup> rat \<times> rat"
  marker_icon :: "nat \<rightharpoonup> icon"
  line_latlngs :: "nat \<rightharpoonup> (rat \<times> rat) \<times> (rat \<times> rat)"
  next_ref :: nat
  tree :: "prov_li list"

definition initial_state :: ui_state where
  "initial_state =
     \<lparr> enabled = (\<lambda>_. []), markers = (\<lambda>_. []), linkBrgyToCity = [], linkCityToProv = [],
       barangays = [], cities = [], provinces = [],
       cityById = [], provinceById = [], barangaysByCity = [],
       layerBrgy = {}, layerCity = {}, layerProv = {}, layerLinks = {},
       marker_latlng = Map.empty, marker_icon = Map.empty, line_latlngs = Map.empty,
       next_ref = 0, tree = [] \<rparr>"

text \<open>\<^verbatim>\<open>enabled[type].set(id, val)\<close>\<close>

definition enabledSet :: "node_type \<Rightarrow> js_id \<Rightarrow> bool \<Rightarrow> ui_state \<Rightarrow> ui_state" where
  "enabledSet type nid val s =
     s\<lparr>enabled := (enabled s)(type := AList.update nid val (enabled s type))\<rparr>"

text \<open>
  \<^verbatim>\<open>function setAllEnabled(type, val) {
    enabled[type].forEach((_, id) => enabled[type].set(id, val)); }\<close>
\<close>

definition setAllEnabled :: "node_type \<Rightarrow> bool \<Rightarrow> ui_state \<Rightarrow> ui_state" where
  "setAllEnabled type val s = fold (\<lambda>(nid, _). enabledSet type nid val) (enabled s type) s"

text \<open>
  \<^verbatim>\<open>function getEnabled(type, id) { return enabled[type].get(id) !== false; }\<close>
\<close>

definition getEnabled :: "ui_state \<Rightarrow> node_type \<Rightarrow> js_id \<Rightarrow> bool" where
  "getEnabled s type nid = (map_of (enabled s type) nid \<noteq> Some False)"

text \<open>
  \<^verbatim>\<open>function setEnabled(type, id, val) { enabled[type].set(id, !!val); }\<close>
  (the argument is the checkbox's \<^verbatim>\<open>checked\<close>, a boolean).
\<close>

definition setEnabled :: "node_type \<Rightarrow> js_id \<Rightarrow> bool \<Rightarrow> ui_state \<Rightarrow> ui_state" where
  "setEnabled type nid val s = enabledSet type nid val s"

subsection \<open>The checkbox tree\<close>

text \<open>
  \<^verbatim>\<open>Array.prototype.sort\<close> with a comparator, as a stable insertion sort. The
  comparator is \<^verbatim>\<open>String.prototype.localeCompare\<close>, which depends on the locale of
  the browser and is the parameter \<open>localeCompare\<close>.
\<close>

fun insertBy :: "('a \<Rightarrow> 'a \<Rightarrow> int) \<Rightarrow> 'a \<Rightarrow> 'a list \<Rightarrow> 'a list" where
  "insertBy cmp x [] = [x]"
| "insertBy cmp x (y # ys) = (if cmp x y \<le> 0 then x # y # ys else y # insertBy cmp x ys)"

definition sortBy :: "('a \<Rightarrow> 'a \<Rightarrow> int) \<Rightarrow> 'a list \<Rightarrow> 'a list" where
  "sortBy cmp xs = foldr (insertBy cmp) xs []"

text \<open>\<^verbatim>\<open>x || dflt\<close> on a string.\<close>

definition orElse :: "js_string \<Rightarrow> js_string \<Rightarrow> js_string" where
  "orElse x dflt = (if x \<noteq> [] then x else dflt)"

text \<open>
  \<^verbatim>\<open>function buildNodeRow(type, id, labelText, onZoom)\<close>: the checkbox starts as
  \<^verbatim>\<open>getEnabled(type, id)\<close>; a province shows the number of its cities, a city the
  number of its barangays.
\<close>

definition buildNodeRow :: "ui_state \<Rightarrow> node_type \<Rightarrow> js_id \<Rightarrow> js_string \<Rightarrow> node_row" where
  "buildNodeRow s type nid labelText =
     \<lparr> row_type = type, row_id = nid, row_checked = getEnabled s type nid,
       row_label = labelText,
       row_meta =
         (case type of
            Province \<Rightarrow> Some (length (filter (\<lambda>c. c_province_id c = nid) (cities s)))
          | City \<Rightarrow>
              Some (length (case map_of (barangaysByCity s) nid of None \<Rightarrow> [] | Some bs \<Rightarrow> bs))
          | Barangay \<Rightarrow> None) \<rparr>"

definition brgyItem :: "ui_state \<Rightarrow> barangay \<Rightarrow> node_row" where
  "brgyItem s b =
     buildNodeRow s Barangay (b_brgy_id b) (orElse (b_barangay b) (lit ''(Unnamed barangay)''))"

definition cityItem ::
  "(js_string \<Rightarrow> js_string \<Rightarrow> int) \<Rightarrow> ui_state \<Rightarrow> city \<Rightarrow> city_li" where
  "cityItem localeCompare s c =
     (let cityId = c_city_id c;
          cityRow = buildNodeRow s City cityId (orElse (c_city c) (lit ''(Unnamed city)''));
          bList = sortBy (\<lambda>a b. localeCompare (orElse (b_barangay a) []) (orElse (b_barangay b) []))
                    (case map_of (barangaysByCity s) cityId of None \<Rightarrow> [] | Some bs \<Rightarrow> bs)
      in (cityRow, map (brgyItem s) bList))"

definition provItem ::
  "(js_string \<Rightarrow> js_string \<Rightarrow> int) \<Rightarrow> ui_state \<Rightarrow> province \<Rightarrow> prov_li" where
  "provItem localeCompare s p =
     (let provId = p_province_id p;
          provRow = buildNodeRow s Province provId
                      (orElse (p_province p) (lit ''(Unnamed province)''));
          citiesInProv =
            sortBy (\<lambda>a b. localeCompare (orElse (c_city a) []) (orElse (c_city b) []))
              (filter (\<lambda>c. c_province_id c = provId) (cities s))
      in (provRow, map (cityItem localeCompare s) citiesInProv))"

definition buildTree :: "(js_string \<Rightarrow> js_string \<Rightarrow> int) \<Rightarrow> ui_state \<Rightarrow> ui_state" where
  "buildTree localeCompare s =
     (let provList =
            sortBy (\<lambda>a b. localeCompare (orElse (p_province a) []) (orElse (p_province b) []))
              (provinces s)
      in s\<lparr>tree := map (provItem localeCompare s) provList\<rparr>)"

subsection \<open>Markers and links\<close>

definition clearMapObjects :: "ui_state \<Rightarrow> ui_state" where
  "clearMapObjects s =
     s\<lparr>layerBrgy := {}, layerCity := {}, layerProv := {}, layerLinks := {},
       markers := (\<lambda>_. []), linkBrgyToCity := [], linkCityToProv := []\<rparr>"

text \<open>
  \<^verbatim>\<open>L.marker([lat, lon], { icon })\<close>, \<^verbatim>\<open>m.addTo(layer)\<close> and
  \<^verbatim>\<open>markers[type].set(id, m)\<close>; the popup text is not modelled.
\<close>

definition newMarker :: "node_type \<Rightarrow> js_id \<Rightarrow> rat \<times> rat \<Rightarrow> icon \<Rightarrow> ui_state \<Rightarrow> ui_state" where
  "newMarker type nid latlng ic s =
     (let m = next_ref s;
          s1 = s\<lparr>next_ref := Suc m,
                 marker_latlng := (marker_latlng s)(m \<mapsto> latlng),
                 marker_icon := (marker_icon s)(m \<mapsto> ic)\<rparr>;
          s2 = (case type of
                  Province \<Rightarrow> s1\<lparr>layerProv := insert m (layerProv s1)\<rparr>
                | City \<Rightarrow> s1\<lparr>layerCity := insert m (layerCity s1)\<rparr>
                | Barangay \<Rightarrow> s1\<lparr>layerBrgy := insert m (layerBrgy s1)\<rparr>)
      in s2\<lparr>markers := (markers s2)(type := AList.update nid m (markers s2 type))\<rparr>)"

definition addProvinceMarker :: "province \<Rightarrow> ui_state \<Rightarrow> ui_state" where
  "addProvinceMarker p s =
     (case (p_lat p, p_lon p) of
        (Some la, Some lo) \<Rightarrow> newMarker Province (p_province_id p) (la, lo) provinceIconEnabled s
      | _ \<Rightarrow> s)"

definition addCityMarker :: "city \<Rightarrow> ui_state \<Rightarrow> ui_state" where
  "addCityMarker c s =
     (case (c_lat c, c_lon c) of
        (Some la, Some lo) \<Rightarrow> newMarker City (c_city_id c) (la, lo) cityIconEnabled s
      | _ \<Rightarrow> s)"

definition addBarangayMarker :: "barangay \<Rightarrow> ui_state \<Rightarrow> ui_state" where
  "addBarangayMarker b s =
     (case (b_lat b, b_lon b) of
        (Some la, Some lo) \<Rightarrow> newMarker Barangay (b_brgy_id b) (la, lo) brgyIconEnabled s
      | _ \<Rightarrow> s)"

text \<open>
  \<^verbatim>\<open>L.polyline.antPath([from, to], ...)\<close> and \<^verbatim>\<open>line.addTo(layerLinks)\<close>; the
  caller then registers the line in its link table.
\<close>

definition newLine :: "(rat \<times> rat) \<times> (rat \<times> rat) \<Rightarrow> ui_state \<Rightarrow> nat \<times> ui_state" where
  "newLine latlngs s =
     (let line = next_ref s
      in (line, s\<lparr>next_ref := Suc line,
                   line_latlngs := (line_latlngs s)(line \<mapsto> latlngs),
                   layerLinks := insert line (layerLinks s)\<rparr>))"

text \<open>
  The barangay to city link of one barangay:
  \<^verbatim>\<open>if (b.lat == null || b.lon == null) return;
  if (!b.city_id) return;
  const c = cityById.get(b.city_id);
  if (!c || c.lat == null || c.lon == null) return;\<close>
\<close>

definition addBrgyLink :: "barangay \<Rightarrow> ui_state \<Rightarrow> ui_state" where
  "addBrgyLink b s =
     (case (b_lat b, b_lon b) of
        (Some blat, Some blon) \<Rightarrow>
          if \<not> truthy_id (b_city_id b) then s
          else
            (case map_of (cityById s) (b_city_id b) of
               None \<Rightarrow> s
             | Some c \<Rightarrow>
                 (case (c_lat c, c_lon c) of
                    (Some clat, Some clon) \<Rightarrow>
                      (case newLine ((blat, blon), (clat, clon)) s of
                         (line, s1) \<Rightarrow>
                           s1\<lparr>linkBrgyToCity :=
                                AList.update (b_brgy_id b) line (linkBrgyToCity s1)\<rparr>)
                  | _ \<Rightarrow> s))
      | _ \<Rightarrow> s)"

text \<open>The city to province link of one city, with the same guards one level up.\<close>

definition addCityLink :: "city \<Rightarrow> ui_state \<Rightarrow> ui_state" where
  "addCityLink c s =
     (case (c_lat c, c_lon c) of
        (Some clat, Some clon) \<Rightarrow>
          if \<not> truthy_id (c_province_id c) then s
          else
            (case map_of (provinceById s) (c_province_id c) of
               None \<Rightarrow> s
             | Some p \<Rightarrow>
                 (case (p_lat p, p_lon p) of
                    (Some plat, Some plon) \<Rightarrow>
                      (case newLine ((clat, clon), (plat, plon)) s of
                         (line, s1) \<Rightarrow>
                           s1\<lparr>linkCityToProv :=
                                AList.update (c_city_id c) line (linkCityToProv s1)\<rparr>)
                  | _ \<Rightarrow> s))
      | _ \<Rightarrow> s)"

text \<open>
  \<^verbatim>\<open>function updateMarkerStyles()\<close>: every registered marker gets the icon of its
  own checkbox.
\<close>

definition enabledIcon :: "node_type \<Rightarrow> icon" where
  "enabledIcon type =
     (case type of Province \<Rightarrow> provinceIconEnabled | City \<Rightarrow> cityIconEnabled
      | Barangay \<Rightarrow> brgyIconEnabled)"

definition disabledIcon :: "node_type \<Rightarrow> icon" where
  "disabledIcon type =
     (case type of Province \<Rightarrow> disabledAwesome | City \<Rightarrow> disabledAwesome
      | Barangay \<Rightarrow> brgyIconDisabled)"

definition setIcon :: "nat \<Rightarrow> icon \<Rightarrow> ui_state \<Rightarrow> ui_state" where
  "setIcon m ic s = s\<lparr>marker_icon := (marker_icon s)(m \<mapsto> ic)\<rparr>"

definition styleMarker :: "node_type \<Rightarrow> js_id \<times> nat \<Rightarrow> ui_state \<Rightarrow> ui_state" where
  "styleMarker type e s =
     (case e of (nid, m) \<Rightarrow>
        (let on = getEnabled s type nid
         in setIcon m (if on then enabledIcon type else disabledIcon type) s))"

definition updateMarkerStyles :: "ui_state \<Rightarrow> ui_state" where
  "updateMarkerStyles s =
     (let s1 = fold (styleMarker Province) (markers s Province) s;
          s2 = fold (styleMarker City) (markers s1 City) s1
      in fold (styleMarker Barangay) (markers s2 Barangay) s2)"

subsection \<open>The visibility engine\<close>

text \<open>
  Reading a property of \<^verbatim>\<open>undefined\<close> throws a \<^verbatim>\<open>TypeError\<close>. The engine's
  callbacks run in the error monad, so that each guard of the source is a branch here.
\<close>

datatype js_error = TypeError

definition getProp :: "('r \<Rightarrow> 'a) \<Rightarrow> 'r option \<Rightarrow> js_error + 'a" where
  "getProp fld ob = (case ob of None \<Rightarrow> Inl TypeError | Some r \<Rightarrow> Inr (fld r))"

fun forEachE :: "('a \<Rightarrow> 's \<Rightarrow> js_error + 's) \<Rightarrow> 'a list \<Rightarrow> 's \<Rightarrow> js_error + 's" where
  "forEachE f [] s = Inr s"
| "forEachE f (x # xs) s = (case f x s of Inl e \<Rightarrow> Inl e | Inr s' \<Rightarrow> forEachE f xs s')"

text \<open>
  \<^verbatim>\<open>function showLine(line, yes) {
    if (!line) return;
    const isOnMap = layerLinks.hasLayer(line);
    if (yes && !isOnMap) line.addTo(layerLinks);
    if (!yes && isOnMap) layerLinks.removeLayer(line); }\<close>
\<close>

definition showLine :: "nat option \<Rightarrow> bool \<Rightarrow> ui_state \<Rightarrow> js_error + ui_state" where
  "showLine line yes s =
     (case line of
        None \<Rightarrow> Inr s
      | Some l \<Rightarrow>
          (let isOnMap = (l \<in> layerLinks s);
               s1 = (if yes \<and> \<not> isOnMap then s\<lparr>layerLinks := insert l (layerLinks s)\<rparr> else s);
               s2 = (if \<not> yes \<and> isOnMap then s1\<lparr>layerLinks := layerLinks s1 - {l}\<rparr> else s1)
           in Inr s2))"

text \<open>
  The callback of \<^verbatim>\<open>linkBrgyToCity.forEach\<close>:
  \<^verbatim>\<open>const b = barangays.find(x => x.brgy_id === brgyId);
  if (!b) return;
  const brgyOn = getEnabled("barangay", brgyId);
  const cityOn = b.city_id ? getEnabled("city", b.city_id) : true;
  const visible = brgyOn && cityOn;
  showLine(line, visible);\<close>
\<close>

definition brgyLinkRule :: "js_id \<times> nat \<Rightarrow> ui_state \<Rightarrow> js_error + ui_state" where
  "brgyLinkRule e s =
     (case e of (brgyId, line) \<Rightarrow>
        (let b = find (\<lambda>x. b_brgy_id x = brgyId) (barangays s)
         in if b = None then Inr s
            else
              (let brgyOn = getEnabled s Barangay brgyId
               in case getProp b_city_id b of
                    Inl err \<Rightarrow> Inl err
                  | Inr cid \<Rightarrow>
                      (let cityOn = (if truthy_id cid then getEnabled s City cid else True);
                           visible = (brgyOn \<and> cityOn)
                       in showLine (Some line) visible s))))"

text \<open>
  The callback of \<^verbatim>\<open>linkCityToProv.forEach\<close>:
  \<^verbatim>\<open>const c = cityById.get(cityId);
  if (!c) return;
  const cityOn = getEnabled("city", cityId);
  const provOn = c.province_id ? getEnabled("province", c.province_id) : true;
  const visible = cityOn && provOn;
  showLine(line, visible);\<close>
\<close>

definition cityLinkRule :: "js_id \<times> nat \<Rightarrow> ui_state \<Rightarrow> js_error + ui_state" where
  "cityLinkRule e s =
     (case e of (cityId, line) \<Rightarrow>
        (let c = map_of (cityById s) cityId
         in if c = None then Inr s
            else
              (let cityOn = getEnabled s City cityId
               in case getProp c_province_id c of
                    Inl err \<Rightarrow> Inl err
                  | Inr pid \<Rightarrow>
                      (let provOn = (if truthy_id pid then getEnabled s Province pid else True);
                           visible = (cityOn \<and> provOn)
                       in showLine (Some line) visible s))))"

definition applyVisibilityRules :: "ui_state \<Rightarrow> js_error + ui_state" where
  "applyVisibilityRules s =
     (case forEachE brgyLinkRule (linkBrgyToCity s) s of
        Inl err \<Rightarrow> Inl err
      | Inr s1 \<Rightarrow> forEachE cityLinkRule (linkCityToProv s1) s1)"

text \<open>
  \<^verbatim>\<open>function addMarkersAndLinks()\<close>: \<^verbatim>\<open>clearMapObjects()\<close> and the five
  \<^verbatim>\<open>forEach\<close> loops (\<open>placeObjects\<close>), then
  \<^verbatim>\<open>updateMarkerStyles(); applyVisibilityRules();\<close>
\<close>

definition placeObjects :: "ui_state \<Rightarrow> ui_state" where
  "placeObjects s =
     (let s0 = clearMapObjects s;
          s1 = fold addProvinceMarker (provinces s0) s0;
          s2 = fold addCityMarker (cities s1) s1;
          s3 = fold addBarangayMarker (barangays s2) s2;
          s4 = fold addBrgyLink (barangays s3) s3
      in fold addCityLink (cities s4) s4)"

definition addMarkersAndLinks :: "ui_state \<Rightarrow> js_error + ui_state" where
  "addMarkersAndLinks s = applyVisibilityRules (updateMarkerStyles (placeObjects s))"

subsection \<open>Loading and user events\<close>

text \<open>
  \<^verbatim>\<open>citiesAll.forEach(c => { if (c.lat != null && c.lon != null)
  cityById.set(c.city_id, c); });\<close> and the same for provinces.
\<close>

definition indexCity :: "city \<Rightarrow> ui_state \<Rightarrow> ui_state" where
  "indexCity c s =
     (if c_lat c \<noteq> None \<and> c_lon c \<noteq> None
      then s\<lparr>cityById := AList.update (c_city_id c) c (cityById s)\<rparr> else s)"

definition indexProvince :: "province \<Rightarrow> ui_state \<Rightarrow> ui_state" where
  "indexProvince p s =
     (if p_lat p \<noteq> None \<and> p_lon p \<noteq> None
      then s\<lparr>provinceById := AList.update (p_province_id p) p (provinceById s)\<rparr> else s)"

text \<open>
  \<^verbatim>\<open>if (!barangaysByCity.has(b.city_id)) barangaysByCity.set(b.city_id, []);
  barangaysByCity.get(b.city_id).push(b);\<close>
\<close>

definition groupBarangay :: "barangay \<Rightarrow> ui_state \<Rightarrow> ui_state" where
  "groupBarangay b s =
     (let s1 = (if map_of (barangaysByCity s) (b_city_id b) = None
                then s\<lparr>barangaysByCity := AList.update (b_city_id b) [] (barangaysByCity s)\<rparr>
                else s);
          bucket = (case map_of (barangaysByCity s1) (b_city_id b) of
                      None \<Rightarrow> [] | Some bs \<Rightarrow> bs)
      in s1\<lparr>barangaysByCity :=
              AList.update (b_city_id b) (bucket @ [b]) (barangaysByCity s1)\<rparr>)"

text \<open>
  \<^verbatim>\<open>async function main()\<close> once the three files are fetched and parsed (a failed
  fetch ends in the status line and loads nothing). It runs once, on the module's initial
  state. \<open>loadData\<close> is its first half: the three pipelines above give the working
  lists, and \<open>indexRows\<close> stores them and builds the indexes and the
  \<^verbatim>\<open>enabled\<close> maps, every flag \<^verbatim>\<open>true\<close>.
\<close>

definition indexRows :: "barangay list \<Rightarrow> city list \<Rightarrow> province list \<Rightarrow> ui_state" where
  "indexRows bAll cAll pAll =
     (let s1 = initial_state\<lparr>barangays := bAll, cities := cAll, provinces := pAll\<rparr>;
          s2 = fold indexCity cAll (s1\<lparr>cityById := []\<rparr>);
          s3 = fold indexProvince pAll (s2\<lparr>provinceById := []\<rparr>);
          s4 = fold groupBarangay bAll (s3\<lparr>barangaysByCity := []\<rparr>);
          s5 = fold (\<lambda>p. enabledSet Province (p_province_id p) True) pAll s4;
          s6 = fold (\<lambda>c. enabledSet City (c_city_id c) True) cAll s5
      in fold (\<lambda>b. enabledSet Barangay (b_brgy_id b) True) bAll s6)"

definition loadData ::
  "(js_string \<Rightarrow> jsnum) \<Rightarrow> raw_row list \<Rightarrow> raw_row list \<Rightarrow> raw_row list \<Rightarrow> ui_state" where
  "loadData numLit barangaysRaw citiesRaw provincesRaw =
     indexRows (barangaysAll numLit barangaysRaw) (citiesAll numLit citiesRaw)
       (provincesAll numLit provincesRaw)"

text \<open>
  The second half: \<^verbatim>\<open>buildTree(); addMarkersAndLinks();\<close>
  (\<^verbatim>\<open>fitBoundsToData\<close> only moves the map view). The result is \<open>Inl\<close> when the
  \<^verbatim>\<open>catch\<close> block is reached.
\<close>

definition main ::
  "(js_string \<Rightarrow> jsnum) \<Rightarrow> (js_string \<Rightarrow> js_string \<Rightarrow> int) \<Rightarrow>
   raw_row list \<Rightarrow> raw_row list \<Rightarrow> raw_row list \<Rightarrow> js_error + ui_state" where
  "main numLit localeCompare barangaysRaw citiesRaw provincesRaw =
     addMarkersAndLinks
       (buildTree localeCompare (loadData numLit barangaysRaw citiesRaw provincesRaw))"

text \<open>
  What the user can do: change one checkbox of the tree (the handler of
  \<^verbatim>\<open>buildNodeRow\<close> reads \<^verbatim>\<open>cb.checked\<close>), or press one of the two buttons.
  Every handler ends with \<^verbatim>\<open>applyVisibilityRules(); updateMarkerStyles();\<close>
\<close>

datatype event = Change node_type js_id bool | CheckAll | UncheckAll

definition refresh :: "ui_state \<Rightarrow> js_error + ui_state" where
  "refresh s =
     (case applyVisibilityRules s of
        Inl err \<Rightarrow> Inl err
      | Inr s1 \<Rightarrow> Inr (updateMarkerStyles s1))"

fun onEvent :: "event \<Rightarrow> ui_state \<Rightarrow> js_error + ui_state" where
  "onEvent (Change type nid checked) s = refresh (setEnabled type nid checked s)"
| "onEvent CheckAll s =
     refresh (setAllEnabled Barangay True (setAllEnabled City True
       (setAllEnabled Province True s)))"
| "onEvent UncheckAll s =
     refresh (setAllEnabled Barangay False (setAllEnabled City False
       (setAllEnabled Province False s)))"

text \<open>A session: the events in the order the browser delivers them.\<close>

definition run :: "event list \<Rightarrow> ui_state \<Rightarrow> js_error + ui_state" where
  "run es s = forEachE onEvent es s"

subsection \<open>Closed forms of the two refresh passes\<close>

text \<open>
  What one call of \<^verbatim>\<open>showLine\<close> does to the link layer, given the decision taken for
  the line (\<open>None\<close> when the callback returned at its guard).
\<close>

definition putLine :: "nat \<Rightarrow> bool option \<Rightarrow> nat set \<Rightarrow> nat set" where
  "putLine l v L = (case v of None \<Rightarrow> L | Some yes \<Rightarrow> (if yes then insert l L else L - {l}))"

text \<open>
  The decision of each callback of \<^verbatim>\<open>applyVisibilityRules\<close>: \<open>None\<close> at the guard,
  otherwise the value of \<^verbatim>\<open>visible\<close>.
\<close>

definition brgyLineVisible :: "ui_state \<Rightarrow> js_id \<Rightarrow> bool option" where
  "brgyLineVisible s brgyId =
     (case find (\<lambda>x. b_brgy_id x = brgyId) (barangays s) of
        None \<Rightarrow> None
      | Some b \<Rightarrow>
          Some (getEnabled s Barangay brgyId \<and>
                (if truthy_id (b_city_id b) then getEnabled s City (b_city_id b) else True)))"

definition cityLineVisible :: "ui_state \<Rightarrow> js_id \<Rightarrow> bool option" where
  "cityLineVisible s cityId =
     (case map_of (cityById s) cityId of
        None \<Rightarrow> None
      | Some c \<Rightarrow>
          Some (getEnabled s City cityId \<and>
                (if truthy_id (c_province_id c) then getEnabled s Province (c_province_id c)
                 else True)))"

text \<open>The link layer after \<^verbatim>\<open>applyVisibilityRules()\<close>.\<close>

definition linksAfter :: "ui_state \<Rightarrow> nat set" where
  "linksAfter s =
     fold (\<lambda>(k, l). putLine l (cityLineVisible s k)) (linkCityToProv s)
       (fold (\<lambda>(k, l). putLine l (brgyLineVisible s k)) (linkBrgyToCity s) (layerLinks s))"

text \<open>
  The icons after \<^verbatim>\<open>updateMarkerStyles()\<close>: the three marker tables in the order of
  the three loops, each marker set to the icon of its own flag.
\<close>

definition iconOf :: "ui_state \<Rightarrow> node_type \<Rightarrow> js_id \<Rightarrow> icon" where
  "iconOf s type nid = (if getEnabled s type nid then enabledIcon type else disabledIcon type)"

definition allMarkers :: "ui_state \<Rightarrow> (node_type \<times> js_id \<times> nat) list" where
  "allMarkers s =
     map (Pair Province) (markers s Province) @ map (Pair City) (markers s City) @
     map (Pair Barangay) (markers s Barangay)"

definition putIcon ::
  "(node_type \<Rightarrow> js_id \<Rightarrow> icon) \<Rightarrow> node_type \<times> js_id \<times> nat \<Rightarrow>
   (nat \<rightharpoonup> icon) \<Rightarrow> (nat \<rightharpoonup> icon)" where
  "putIcon f e h = (case e of (t, k, m) \<Rightarrow> h(m \<mapsto> f t k))"

definition iconsAfter :: "ui_state \<Rightarrow> nat \<rightharpoonup> icon" where
  "iconsAfter s = fold (putIcon (iconOf s)) (allMarkers s) (marker_icon s)"

text \<open>The state after \<^verbatim>\<open>applyVisibilityRules(); updateMarkerStyles();\<close>\<close>

definition settle :: "ui_state \<Rightarrow> ui_state" where
  "settle s = s\<lparr>layerLinks := linksAfter s, marker_icon := iconsAfter s\<rparr>"

text \<open>The part of a handler that writes the \<^verbatim>\<open>enabled\<close> maps.\<close>

fun setFlags :: "event \<Rightarrow> ui_state \<Rightarrow> ui_state" where
  "setFlags (Change type nid checked) s = setEnabled type nid checked s"
| "setFlags CheckAll s =
     setAllEnabled Barangay True (setAllEnabled City True (setAllEnabled Province True s))"
| "setFlags UncheckAll s =
     setAllEnabled Barangay False (setAllEnabled City False (setAllEnabled Province False s))"

text \<open>\<^verbatim>\<open>x ? getEnabled(type, x) : true\<close>, as both callbacks read the flag of the parent.\<close>

definition parentOn :: "ui_state \<Rightarrow> node_type \<Rightarrow> js_id \<Rightarrow> bool" where
  "parentOn s type pid = (if truthy_id pid then getEnabled s type pid else True)"

subsection \<open>Invariants\<close>

text \<open>Everything that no handler writes: the state without flags, link layer and icons.\<close>

definition static :: "ui_state \<Rightarrow> ui_state" where
  "static s = s\<lparr>enabled := (\<lambda>_. []), layerLinks := {}, marker_icon := Map.empty\<rparr>"

text \<open>The part of the state that the loops of \<^verbatim>\<open>addMarkersAndLinks\<close> leave alone.\<close>

definition data ::
  "ui_state \<Rightarrow> barangay list \<times> city list \<times> province list \<times> (js_id \<times> city) list \<times>
     (js_id \<times> province) list \<times> (js_id \<times> barangay list) list \<times>
     (node_type \<Rightarrow> (js_id \<times> bool) list) \<times> prov_li list" where
  "data s = (barangays s, cities s, provinces s, cityById s, provinceById s,
             barangaysByCity s, enabled s, tree s)"

text \<open>
  Object identities: every registered marker and line was created before \<open>next_ref\<close>,
  no marker object is registered under two keys or in two tables, and no line object is
  registered twice.
\<close>

definition refsOk :: "ui_state \<Rightarrow> bool" where
  "refsOk s \<longleftrightarrow>
     (\<forall>t. \<forall>e \<in> set (markers s t). snd e < next_ref s) \<and>
     (\<forall>t. distinct (map snd (markers s t))) \<and>
     (\<forall>t t'. t \<noteq> t' \<longrightarrow> snd ` set (markers s t) \<inter> snd ` set (markers s t') = {}) \<and>
     (\<forall>e \<in> set (linkBrgyToCity s). snd e < next_ref s) \<and>
     (\<forall>e \<in> set (linkCityToProv s). snd e < next_ref s) \<and>
     distinct (map snd (linkBrgyToCity s) @ map snd (linkCityToProv s))"

text \<open>
  Every key of a link table or of a marker table is the identifier of a row that passed
  the guards of the loop that registered it.
\<close>

definition keysOk :: "ui_state \<Rightarrow> bool" where
  "keysOk s \<longleftrightarrow>
     (\<forall>e \<in> set (linkBrgyToCity s). \<exists>b \<in> set (barangays s). b_brgy_id b = fst e) \<and>
     (\<forall>e \<in> set (linkCityToProv s). \<exists>c \<in> set (cities s).
        c_city_id c = fst e \<and> c_lat c \<noteq> None \<and> c_lon c \<noteq> None \<and>
        truthy_id (c_province_id c)) \<and>
     (\<forall>e \<in> set (markers s Barangay). \<exists>b \<in> set (barangays s).
        b_brgy_id b = fst e \<and> b_lat b \<noteq> None \<and> b_lon b \<noteq> None) \<and>
     (\<forall>e \<in> set (markers s City). \<exists>c \<in> set (cities s).
        c_city_id c = fst e \<and> c_lat c \<noteq> None \<and> c_lon c \<noteq> None) \<and>
     (\<forall>e \<in> set (markers s Province). \<exists>p \<in> set (provinces s).
        p_province_id p = fst e \<and> p_lat p \<noteq> None \<and> p_lon p \<noteq> None)"

text \<open>What holds of \<open>s'\<close> while the loops of \<^verbatim>\<open>addMarkersAndLinks\<close> run from \<open>s\<close>.\<close>

definition placed :: "ui_state \<Rightarrow> ui_state \<Rightarrow> bool" where
  "placed s s' \<longleftrightarrow> data s' = data s \<and> refsOk s' \<and> keysOk s'"

text \<open>
  Well-formed loaded data: distinct objects, keys of working rows, barangays that passed
  the filter, and a city index that holds exactly the cities with coordinates.
\<close>

definition dataWf :: "ui_state \<Rightarrow> bool" where
  "dataWf s \<longleftrightarrow>
     distinct (map snd (linkBrgyToCity s) @ map snd (linkCityToProv s)) \<and>
     distinct (map (\<lambda>e. snd (snd e)) (allMarkers s)) \<and>
     keysOk s \<and>
     (\<forall>b \<in> set (barangays s). truthy_id (b_brgy_id b) \<and> truthy_id (b_city_id b) \<and>
        truthy_num (b_lat b) \<and> truthy_num (b_lon b)) \<and>
     (\<forall>k c. map_of (cityById s) k = Some c \<longrightarrow> c \<in> set (cities s) \<and> c_city_id c = k) \<and>
     (\<forall>c \<in> set (cities s). c_lat c \<noteq> None \<and> c_lon c \<noteq> None \<longrightarrow>
        map_of (cityById s) (c_city_id c) \<noteq> None)"

text \<open>The state of \<^verbatim>\<open>main\<close> just before its first refresh.\<close>

definition base ::
  "(js_string \<Rightarrow> jsnum) \<Rightarrow> (js_string \<Rightarrow> js_string \<Rightarrow> int) \<Rightarrow>
   raw_row list \<Rightarrow> raw_row list \<Rightarrow> raw_row list \<Rightarrow> ui_state" where
  "base numLit localeCompare B C P =
     placeObjects (buildTree localeCompare (loadData numLit B C P))"

text \<open>
  The states in which the program waits for the user: a refreshed state with the static
  part of \<open>b\<close>, in which every line that is in no link table is on the map exactly when
  it is in \<open>b\<close>.
\<close>

definition reached :: "ui_state \<Rightarrow> ui_state \<Rightarrow> bool" where
  "reached b s \<longleftrightarrow>
     (\<exists>t. s = settle t \<and> static t = static b \<and>
        (\<forall>l. l \<notin> snd ` set (linkBrgyToCity b) \<longrightarrow> l \<notin> snd ` set (linkCityToProv b) \<longrightarrow>
           (l \<in> layerLinks t) = (l \<in> layerLinks b)))"

subsection \<open>Notions of the specification\<close>

text \<open>\<^verbatim>\<open>x ?? ""\<close> on a cell.\<close>

definition cellText :: "js_string option \<Rightarrow> js_string" where
  "cellText x = (case x of None \<Rightarrow> [] | Some s \<Rightarrow> s)"

text \<open>
  "Whitespace-trimmed", in the words of the specification: \<open>s\<close> is \<open>raw\<close> without
  a run of white space at its start and one at its end, and neither starts nor ends with
  white space.
\<close>

definition trimmedOf :: "js_string \<Rightarrow> js_string \<Rightarrow> bool" where
  "trimmedOf raw s \<longleftrightarrow>
     (\<exists>pre post. raw = pre @ s @ post \<and> list_all isWhiteSpace pre \<and>
        list_all isWhiteSpace post) \<and>
     (s = [] \<or> (\<not> isWhiteSpace (hd s) \<and> \<not> isWhiteSpace (last s)))"

text \<open>A trimmed identifier: \<^verbatim>\<open>null\<close> when nothing is left, the trimmed text otherwise.\<close>

definition trimmedId :: "js_string option \<Rightarrow> js_id \<Rightarrow> bool" where
  "trimmedId raw v =
     (case v of
        None \<Rightarrow> trimmedOf (cellText raw) []
      | Some s \<Rightarrow> s \<noteq> [] \<and> trimmedOf (cellText raw) s)"

text \<open>All rows of the checkbox tree, top down.\<close>

definition treeNodes :: "prov_li list \<Rightarrow> node_row list" where
  "treeNodes t = concat (map (\<lambda>(p, cs). p # concat (map (\<lambda>(c, bs). c # bs) cs)) t)"

subsection \<open>A worked example\<close>

text \<open>
  An instance of the \<open>localeCompare\<close> parameter for the worked example: comparison
  by code units.
\<close>

fun codeUnitCompare :: "js_string \<Rightarrow> js_string \<Rightarrow> int" where
  "codeUnitCompare [] [] = 0"
| "codeUnitCompare [] (y # ys) = - 1"
| "codeUnitCompare (x # xs) [] = 1"
| "codeUnitCompare (x # xs) (y # ys) =
     (if x < y then - 1 else if y < x then 1 else codeUnitCompare xs ys)"

text \<open>
  Three barangay rows, three city rows and one province row. The barangay B2 has an empty
  latitude cell and B3 has no coordinates; the city C2 has no coordinates and C3 has the
  coordinates 0 and 0.
\<close>

definition csvRow :: "(column \<times> string) list \<Rightarrow> raw_row" where
  "csvRow cells = map_of (map (\<lambda>(c, v). (c, lit v)) cells)"

definition exampleBarangays :: "raw_row list" where
  "exampleBarangays =
     [csvRow [(Col_brgy_id, ''B1''), (Col_barangay, '' Apas ''), (Col_lat, ''10''),
              (Col_lon, ''123''), (Col_city, ''Cebu City''), (Col_city_id, ''C1'')],
      csvRow [(Col_brgy_id, ''B2''), (Col_barangay, ''Lahug''), (Col_lat, ''''),
              (Col_lon, ''123''), (Col_city, ''Cebu City''), (Col_city_id, ''C1'')],
      csvRow [(Col_brgy_id, ''B3''), (Col_barangay, ''Luz''), (Col_lat, ''n/a''),
              (Col_lon, ''n/a''), (Col_city, ''Cebu City''), (Col_city_id, ''C1'')]]"

definition exampleCities :: "raw_row list" where
  "exampleCities =
     [csvRow [(Col_city_id, ''C1''), (Col_city, ''Cebu City''), (Col_lat, ''11''),
              (Col_lon, ''124''), (Col_province, ''Cebu''), (Col_province_id, ''P1'')],
      csvRow [(Col_city_id, ''C2''), (Col_city, ''Talisay''), (Col_lat, ''n/a''),
              (Col_lon, ''n/a''), (Col_province, ''Cebu''), (Col_province_id, ''P1'')],
      csvRow [(Col_city_id, ''C3''), (Col_city, ''Carcar''), (Col_lat, ''0''),
              (Col_lon, ''''), (Col_province, ''Cebu''), (Col_province_id, ''P1'')]]"

definition exampleProvinces :: "raw_row list" where
  "exampleProvinces =
     [csvRow [(Col_province_id, ''P1''), (Col_province, ''Cebu''), (Col_lat, ''12''),
              (Col_lon, ''125'')]]"

text \<open>The example once loaded, and a state after a session (no session fails).\<close>

definition exampleMain :: "js_error + ui_state" where
  "exampleMain = main decimalLit codeUnitCompare exampleBarangays exampleCities exampleProvinces"

definition exampleLoaded :: ui_state where
  "exampleLoaded = (case exampleMain of Inr s \<Rightarrow> s | Inl e \<Rightarrow> initial_state)"

definition after :: "event list \<Rightarrow> ui_state \<Rightarrow> ui_state" where
  "after es s = (case run es s of Inr s' \<Rightarrow> s' | Inl e \<Rightarrow> s)"

text \<open>The rows of the example that pass the filters.\<close>

definition exampleB1 :: barangay where
  "exampleB1 = \<lparr> b_brgy_id = Some (lit ''B1''), b_city_id = Some (lit ''C1''),
     b_barangay = lit ''Apas'', b_city = lit ''Cebu City'', b_lat = Some 10, b_lon = Some 123 \<rparr>"

definition exampleC1 :: city where
  "exampleC1 = \<lparr> c_city_id = Some (lit ''C1''), c_province_id = Some (lit ''P1''),
     c_city = lit ''Cebu City'', c_province = lit ''Cebu'', c_lat = Some 11, c_lon = Some 124 \<rparr>"

definition exampleC2 :: city where
  "exampleC2 = \<lparr> c_city_id = Some (lit ''C2''), c_province_id = Some (lit ''P1''),
     c_city = lit ''Talisay'', c_province = lit ''Cebu'', c_lat = None, c_lon = None \<rparr>"

definition exampleC3 :: city where
  "exampleC3 = \<lparr> c_city_id = Some (lit ''C3''), c_province_id = Some (lit ''P1''),
     c_city = lit ''Carcar'', c_province = lit ''Cebu'', c_lat = Some 0, c_lon = Some 0 \<rparr>"

definition exampleP1 :: province where
  "exampleP1 = \<lparr> p_province_id = Some (lit ''P1''), p_province = lit ''Cebu'',
     p_lat = Some 12, p_lon = Some 125 \<rparr>"

subsection \<open>Data with a repeated identifier\<close>

text \<open>
  A second data set, in which two barangay rows carry the identifier B1: the first lies in
  the city C1, the second in the city C2.
\<close>

definition dupBarangays :: "raw_row list" where
  "dupBarangays =
     [csvRow [(Col_brgy_id, ''B1''), (Col_barangay, ''One''), (Col_lat, ''10''),
              (Col_lon, ''123''), (Col_city, ''Alpha''), (Col_city_id, ''C1'')],
      csvRow [(Col_brgy_id, ''B1''), (Col_barangay, ''Two''), (Col_lat, ''20''),
              (Col_lon, ''123''), (Col_city, ''Beta''), (Col_city_id, ''C2'')]]"

definition dupCities :: "raw_row list" where
  "dupCities =
     [csvRow [(Col_city_id, ''C1''), (Col_city, ''Alpha''), (Col_lat, ''11''),
              (Col_lon, ''124''), (Col_province, ''Cebu''), (Col_province_id, ''P1'')],
      csvRow [(Col_city_id, ''C2''), (Col_city, ''Beta''), (Col_lat, ''21''),
              (Col_lon, ''124''), (Col_province, ''Cebu''), (Col_province_id, ''P1'')]]"

definition dupLoaded :: ui_state where
  "dupLoaded =
     (case main decimalLit codeUnitCompare dupBarangays dupCities exampleProvinces of
        Inr s \<Rightarrow> s | Inl e \<Rightarrow> initial_state)"

definition dupB1 :: barangay where
  "dupB1 = \<lparr> b_brgy_id = Some (lit ''B1''), b_city_id = Some (lit ''C1''),
     b_barangay = lit ''One'', b_city = lit ''Alpha'', b_lat = Some 10, b_lon = Some 123 \<rparr>"

definition dupB2 :: barangay where
  "dupB2 = \<lparr> b_brgy_id = Some (lit ''B1''), b_city_id = Some (lit ''C2''),
     b_barangay = lit ''Two'', b_city = lit ''Beta'', b_lat = Some 20, b_lon = Some 123 \<rparr>"

definition dupC1 :: city where
  "dupC1 = \<lparr> c_city_id = Some (lit ''C1''), c_province_id = Some (lit ''P1''),
     c_city = lit ''Alpha'', c_province = lit ''Cebu'', c_lat = Some 11, c_lon = Some 124 \<rparr>"

definition dupC2 :: city where
  "dupC2 = \<lparr> c_city_id = Some (lit ''C2''), c_province_id = Some (lit ''P1''),
     c_city = lit ''Beta'', c_province = lit ''Cebu'', c_lat = Some 21, c_lon = Some 124 \<rparr>"

text \<open>
  A third data set, in which two city rows carry the identifier C1: the first lies in the
  province P1, the second names no province.
\<close>

definition twinCities :: "raw_row list" where
  "twinCities =
     [csvRow [(Col_city_id, ''C1''), (Col_city, ''Alpha''), (Col_lat, ''11''),
              (Col_lon, ''124''), (Col_province, ''Cebu''), (Col_province_id, ''P1'')],
      csvRow [(Col_city_id, ''C1''), (Col_city, ''Beta''), (Col_lat, ''21''),
              (Col_lon, ''124'')]]"

definition twinLoaded :: ui_state where
  "twinLoaded =
     (case main decimalLit codeUnitCompare [] twinCities exampleProvinces of
        Inr s \<Rightarrow> s | Inl e \<Rightarrow> initial_state)"

definition twinC1 :: city where
  "twinC1 = \<lparr> c_city_id = Some (lit ''C1''), c_province_id = Some (lit ''P1''),
     c_city = lit ''Alpha'', c_province = lit ''Cebu'', c_lat = Some 11, c_lon = Some 124 \<rparr>"

definition twinC1' :: city where
  "twinC1' = \<lparr> c_city_id = Some (lit ''C1''), c_province_id = None,
     c_city = lit ''Beta'', c_province = [], c_lat = Some 21, c_lon = Some 124 \<rparr>"

section \<open>Properties\<close>

subsection \<open>The refresh passes in closed form\<close>

lemma showLine_eq:
  "showLine (Some l) v s = Inr (s\<lparr>layerLinks := putLine l (Some v) (layerLinks s)\<rparr>)"
  by (auto simp: showLine_def putLine_def Let_def insert_absorb)

lemma getEnabled_layerLinks [simp]:
  "getEnabled (s\<lparr>layerLinks := L\<rparr>) = getEnabled s"
  by (simp add: fun_eq_iff getEnabled_def)

lemma brgyLineVisible_layer [simp]:
  "brgyLineVisible (s\<lparr>layerLinks := L\<rparr>) k = brgyLineVisible s k"
  by (simp add: brgyLineVisible_def cong: option.case_cong if_cong)

lemma cityLineVisible_layer [simp]:
  "cityLineVisible (s\<lparr>layerLinks := L\<rparr>) k = cityLineVisible s k"
  by (simp add: cityLineVisible_def cong: option.case_cong if_cong)

lemma brgyLinkRule_eq:
  "brgyLinkRule (k, l) s = Inr (s\<lparr>layerLinks := putLine l (brgyLineVisible s k) (layerLinks s)\<rparr>)"
  by (cases "find (\<lambda>x. b_brgy_id x = k) (barangays s)")
     (simp_all add: brgyLinkRule_def brgyLineVisible_def getProp_def showLine_eq Let_def putLine_def)

lemma cityLinkRule_eq:
  "cityLinkRule (k, l) s = Inr (s\<lparr>layerLinks := putLine l (cityLineVisible s k) (layerLinks s)\<rparr>)"
  by (cases "map_of (cityById s) k")
     (simp_all add: cityLinkRule_def cityLineVisible_def getProp_def showLine_eq Let_def putLine_def)

lemma forEachE_brgyLinkRule:
  "forEachE brgyLinkRule xs s =
     Inr (s\<lparr>layerLinks := fold (\<lambda>(k, l). putLine l (brgyLineVisible s k)) xs (layerLinks s)\<rparr>)"
proof (induction xs arbitrary: s)
  case Nil
  show ?case by simp
next
  case (Cons x xs)
  obtain k l where x: "x = (k, l)" by (cases x)
  show ?case by (simp add: x brgyLinkRule_eq Cons.IH)
qed

lemma forEachE_cityLinkRule:
  "forEachE cityLinkRule xs s =
     Inr (s\<lparr>layerLinks := fold (\<lambda>(k, l). putLine l (cityLineVisible s k)) xs (layerLinks s)\<rparr>)"
proof (induction xs arbitrary: s)
  case Nil
  show ?case by simp
next
  case (Cons x xs)
  obtain k l where x: "x = (k, l)" by (cases x)
  show ?case by (simp add: x cityLinkRule_eq Cons.IH)
qed

lemma applyVisibilityRules_eq:
  "applyVisibilityRules s = Inr (s\<lparr>layerLinks := linksAfter s\<rparr>)"
  by (simp add: applyVisibilityRules_def forEachE_brgyLinkRule forEachE_cityLinkRule linksAfter_def)


lemma putLine_mem:
  "(l \<in> putLine l' v L) = (if l = l' then (case v of None \<Rightarrow> l \<in> L | Some yes \<Rightarrow> yes) else l \<in> L)"
  by (auto simp: putLine_def split: option.split)

lemma fold_putLine_other:
  "l \<notin> snd ` set xs \<Longrightarrow> (l \<in> fold (\<lambda>(k, l'). putLine l' (d k)) xs L) = (l \<in> L)"
proof (induction xs arbitrary: L)
  case Nil
  show ?case by simp
next
  case (Cons x xs)
  obtain k l' where x: "x = (k, l')" by (cases x)
  from Cons.prems have "l \<noteq> l'" and "l \<notin> snd ` set xs" by (auto simp: x)
  then show ?case
    by (simp add: x Cons.IH putLine_mem)
qed

lemma fold_putLine_entry:
  "distinct (map snd xs) \<Longrightarrow> (k, l) \<in> set xs \<Longrightarrow> d k = Some v \<Longrightarrow>
   (l \<in> fold (\<lambda>(k, l'). putLine l' (d k)) xs L) = v"
proof (induction xs arbitrary: L)
  case Nil
  then show ?case by simp
next
  case (Cons x xs)
  obtain k' l' where x: "x = (k', l')" by (cases x)
  show ?case
  proof (cases "(k, l) = (k', l')")
    case True
    with Cons.prems have "l \<notin> snd ` set xs" by (auto simp: x)
    then show ?thesis
      using True Cons.prems(3) by (simp add: x fold_putLine_other putLine_mem)
  next
    case False
    with Cons.prems have "(k, l) \<in> set xs" "distinct (map snd xs)" by (auto simp: x)
    then show ?thesis using Cons.prems(3) by (simp add: x Cons.IH)
  qed
qed

lemma linksAfter_other:
  "l \<notin> snd ` set (linkBrgyToCity s) \<Longrightarrow> l \<notin> snd ` set (linkCityToProv s) \<Longrightarrow>
   (l \<in> linksAfter s) = (l \<in> layerLinks s)"
  by (simp add: linksAfter_def fold_putLine_other)

lemma linksAfter_brgy:
  assumes "distinct (map snd (linkBrgyToCity s) @ map snd (linkCityToProv s))"
    and "(k, l) \<in> set (linkBrgyToCity s)" and "brgyLineVisible s k = Some v"
  shows "(l \<in> linksAfter s) = v"
proof -
  from assms(1,2) have "l \<notin> snd ` set (linkCityToProv s)" by force
  moreover from assms(1) have "distinct (map snd (linkBrgyToCity s))" by simp
  ultimately show ?thesis
    using assms(2,3) by (simp add: linksAfter_def fold_putLine_other fold_putLine_entry)
qed

lemma linksAfter_city:
  assumes "distinct (map snd (linkBrgyToCity s) @ map snd (linkCityToProv s))"
    and "(k, l) \<in> set (linkCityToProv s)" and "cityLineVisible s k = Some v"
  shows "(l \<in> linksAfter s) = v"
proof -
  from assms(1) have "distinct (map snd (linkCityToProv s))" by simp
  then show ?thesis
    using assms(2,3) by (simp add: linksAfter_def fold_putLine_entry)
qed

lemma getEnabled_marker_icon [simp]:
  "getEnabled (s\<lparr>marker_icon := h\<rparr>) = getEnabled s"
  by (simp add: fun_eq_iff getEnabled_def)

lemma iconOf_marker_icon [simp]: "iconOf (s\<lparr>marker_icon := h\<rparr>) = iconOf s"
  by (simp add: fun_eq_iff iconOf_def)

lemma styleMarker_eq:
  "styleMarker t (k, m) s = s\<lparr>marker_icon := putIcon (iconOf s) (t, k, m) (marker_icon s)\<rparr>"
  by (simp add: styleMarker_def setIcon_def iconOf_def putIcon_def)

lemma fold_styleMarker:
  "fold (styleMarker t) xs s =
     s\<lparr>marker_icon := fold (putIcon (iconOf s)) (map (Pair t) xs) (marker_icon s)\<rparr>"
proof (induction xs arbitrary: s)
  case Nil
  show ?case by simp
next
  case (Cons x xs)
  obtain k m where x: "x = (k, m)" by (cases x)
  show ?case
    by (simp add: x Cons.IH styleMarker_eq)
qed

lemma updateMarkerStyles_eq: "updateMarkerStyles s = s\<lparr>marker_icon := iconsAfter s\<rparr>"
  by (simp add: updateMarkerStyles_def Let_def fold_styleMarker iconsAfter_def allMarkers_def)

lemma fold_putIcon_other:
  "m \<notin> (\<lambda>e. snd (snd e)) ` set xs \<Longrightarrow> fold (putIcon f) xs h m = h m"
proof (induction xs arbitrary: h)
  case Nil
  show ?case by simp
next
  case (Cons x xs)
  obtain t k m' where x: "x = (t, k, m')" by (cases x)
  from Cons.prems have "m \<noteq> m'" "m \<notin> (\<lambda>e. snd (snd e)) ` set xs" by (auto simp: x)
  then show ?case by (simp add: x Cons.IH) (simp add: putIcon_def)
qed

lemma fold_putIcon_entry:
  "distinct (map (\<lambda>e. snd (snd e)) xs) \<Longrightarrow> (t, k, m) \<in> set xs \<Longrightarrow>
   fold (putIcon f) xs h m = Some (f t k)"
proof (induction xs arbitrary: h)
  case Nil
  then show ?case by simp
next
  case (Cons x xs)
  obtain t' k' m' where x: "x = (t', k', m')" by (cases x)
  show ?case
  proof (cases "(t, k, m) = (t', k', m')")
    case True
    with Cons.prems have "m \<notin> (\<lambda>e. snd (snd e)) ` set xs" by (auto simp: x)
    then show ?thesis using True by (simp add: x fold_putIcon_other) (simp add: putIcon_def)
  next
    case False
    with Cons.prems have "(t, k, m) \<in> set xs" "distinct (map (\<lambda>e. snd (snd e)) xs)"
      by (auto simp: x)
    then show ?thesis by (simp add: x Cons.IH)
  qed
qed

subsection \<open>What the handlers leave alone\<close>

lemma static_upd [simp]:
  "static (s\<lparr>layerLinks := L\<rparr>) = static s"
  "static (s\<lparr>marker_icon := h\<rparr>) = static s"
  "static (s\<lparr>enabled := e\<rparr>) = static s"
  by (simp_all add: static_def)

lemma static_fields [simp]:
  "markers (static s) = markers s"
  "linkBrgyToCity (static s) = linkBrgyToCity s"
  "linkCityToProv (static s) = linkCityToProv s"
  "barangays (static s) = barangays s"
  "cities (static s) = cities s"
  "provinces (static s) = provinces s"
  "cityById (static s) = cityById s"
  "provinceById (static s) = provinceById s"
  "barangaysByCity (static s) = barangaysByCity s"
  "layerBrgy (static s) = layerBrgy s"
  "layerCity (static s) = layerCity s"
  "layerProv (static s) = layerProv s"
  "marker_latlng (static s) = marker_latlng s"
  "line_latlngs (static s) = line_latlngs s"
  "next_ref (static s) = next_ref s"
  "tree (static s) = tree s"
  by (simp_all add: static_def)

lemma static_eqD:
  assumes "static s = static s'"
  shows "markers s = markers s'" "linkBrgyToCity s = linkBrgyToCity s'"
    "linkCityToProv s = linkCityToProv s'" "barangays s = barangays s'"
    "cities s = cities s'" "provinces s = provinces s'" "cityById s = cityById s'"
    "provinceById s = provinceById s'" "barangaysByCity s = barangaysByCity s'"
    "layerBrgy s = layerBrgy s'" "layerCity s = layerCity s'" "layerProv s = layerProv s'"
    "marker_latlng s = marker_latlng s'" "line_latlngs s = line_latlngs s'"
    "next_ref s = next_ref s'" "tree s = tree s'"
  using arg_cong [OF assms, of markers] arg_cong [OF assms, of linkBrgyToCity]
    arg_cong [OF assms, of linkCityToProv] arg_cong [OF assms, of barangays]
    arg_cong [OF assms, of cities] arg_cong [OF assms, of provinces]
    arg_cong [OF assms, of cityById] arg_cong [OF assms, of provinceById]
    arg_cong [OF assms, of barangaysByCity] arg_cong [OF assms, of layerBrgy]
    arg_cong [OF assms, of layerCity] arg_cong [OF assms, of layerProv]
    arg_cong [OF assms, of marker_latlng] arg_cong [OF assms, of line_latlngs]
    arg_cong [OF assms, of next_ref] arg_cong [OF assms, of tree]
  by simp_all

lemma static_enabledSet [simp]: "static (enabledSet t k v s) = static s"
  by (simp add: enabledSet_def)

lemma layerLinks_enabledSet [simp]: "layerLinks (enabledSet t k v s) = layerLinks s"
  by (simp add: enabledSet_def)

lemma marker_icon_enabledSet [simp]: "marker_icon (enabledSet t k v s) = marker_icon s"
  by (simp add: enabledSet_def)

lemma getEnabled_enabledSet:
  "getEnabled (enabledSet t k v s) t' k' = (if t' = t \<and> k' = k then v else getEnabled s t' k')"
  by (simp add: enabledSet_def getEnabled_def AList.update_conv')

lemma fold_enabledSet_frame:
  "static (fold (\<lambda>(nid, _). enabledSet t nid v) xs s) = static s \<and>
   layerLinks (fold (\<lambda>(nid, _). enabledSet t nid v) xs s) = layerLinks s \<and>
   marker_icon (fold (\<lambda>(nid, _). enabledSet t nid v) xs s) = marker_icon s"
  by (induction xs arbitrary: s) (simp_all add: case_prod_beta)

lemma setAllEnabled_frame [simp]:
  "static (setAllEnabled t v s) = static s"
  "layerLinks (setAllEnabled t v s) = layerLinks s"
  "marker_icon (setAllEnabled t v s) = marker_icon s"
  by (simp_all add: setAllEnabled_def fold_enabledSet_frame)

lemma setFlags_frame [simp]:
  "static (setFlags e s) = static s"
  "layerLinks (setFlags e s) = layerLinks s"
  "marker_icon (setFlags e s) = marker_icon s"
  by (cases e; simp add: setEnabled_def)+

lemma iconsAfter_layerLinks [simp]: "iconsAfter (s\<lparr>layerLinks := L\<rparr>) = iconsAfter s"
  by (simp add: iconsAfter_def allMarkers_def iconOf_def [abs_def])

lemma brgyLineVisible_cong:
  "barangays s = barangays s' \<Longrightarrow> getEnabled s = getEnabled s' \<Longrightarrow>
   brgyLineVisible s = brgyLineVisible s'"
  by (simp add: brgyLineVisible_def [abs_def] cong: option.case_cong if_cong)

lemma cityLineVisible_cong:
  "cityById s = cityById s' \<Longrightarrow> getEnabled s = getEnabled s' \<Longrightarrow>
   cityLineVisible s = cityLineVisible s'"
  by (simp add: cityLineVisible_def [abs_def] cong: option.case_cong if_cong)

lemma linksAfter_cong:
  assumes "static s = static s'" "getEnabled s = getEnabled s'" "layerLinks s = layerLinks s'"
  shows "linksAfter s = linksAfter s'"
  using assms static_eqD [OF assms(1)]
    brgyLineVisible_cong [of s s'] cityLineVisible_cong [of s s']
  by (simp add: linksAfter_def)

lemma linksAfter_marker_icon [simp]: "linksAfter (s\<lparr>marker_icon := h\<rparr>) = linksAfter s"
  by (rule linksAfter_cong) simp_all

lemma refresh_eq: "refresh s = Inr (settle s)"
  by (simp add: refresh_def applyVisibilityRules_eq updateMarkerStyles_eq settle_def)

lemma addMarkersAndLinks_eq: "addMarkersAndLinks s = Inr (settle (placeObjects s))"
  by (simp add: addMarkersAndLinks_def applyVisibilityRules_eq updateMarkerStyles_eq settle_def)

lemma onEvent_eq: "onEvent e s = Inr (settle (setFlags e s))"
  by (cases e) (simp_all add: refresh_eq)

lemma main_eq:
  "main numLit cmp B C P = Inr (settle (placeObjects (buildTree cmp (loadData numLit B C P))))"
  by (simp add: main_def addMarkersAndLinks_eq)

lemma settle_frame [simp]:
  "static (settle s) = static s"
  "enabled (settle s) = enabled s"
  "getEnabled (settle s) = getEnabled s"
  "layerLinks (settle s) = linksAfter s"
  "marker_icon (settle s) = iconsAfter s"
  by (simp_all add: settle_def)

subsection \<open>Totality of the engine\<close>

text \<open>
  C9: the visibility recomputation is total. For every state, \<open>applyVisibilityRules\<close>
  returns a state and never the error; a line whose barangay is not found, or whose city
  is not in the index, is skipped by the guard of its callback.
\<close>

theorem applyVisibilityRules_total:
  "(\<exists>s'. applyVisibilityRules s = Inr s') \<and>
   (find (\<lambda>x. b_brgy_id x = brgyId) (barangays s) = None \<longrightarrow>
      brgyLinkRule (brgyId, line) s = Inr s) \<and>
   (map_of (cityById s) cityId = None \<longrightarrow> cityLinkRule (cityId, line') s = Inr s)"
  by (simp add: applyVisibilityRules_eq brgyLinkRule_def cityLinkRule_def)

theorem applyVisibilityRules_total_witness:
  "(\<exists>s'. applyVisibilityRules
           (initial_state\<lparr>linkBrgyToCity := [(Some (lit ''B9''), 0)],
                          linkCityToProv := [(Some (lit ''C9''), 1)]\<rparr>) = Inr s') \<and>
   find (\<lambda>x. b_brgy_id x = Some (lit ''B9'')) (barangays initial_state) = None \<and>
   brgyLinkRule (Some (lit ''B9''), 0)
     (initial_state\<lparr>linkBrgyToCity := [(Some (lit ''B9''), 0)],
                    linkCityToProv := [(Some (lit ''C9''), 1)]\<rparr>) =
   Inr (initial_state\<lparr>linkBrgyToCity := [(Some (lit ''B9''), 0)],
                      linkCityToProv := [(Some (lit ''C9''), 1)]\<rparr>) \<and>
   map_of (cityById initial_state) (Some (lit ''C9'')) = None \<and>
   cityLinkRule (Some (lit ''C9''), 1)
     (initial_state\<lparr>linkBrgyToCity := [(Some (lit ''B9''), 0)],
                    linkCityToProv := [(Some (lit ''C9''), 1)]\<rparr>) =
   Inr (initial_state\<lparr>linkBrgyToCity := [(Some (lit ''B9''), 0)],
                      linkCityToProv := [(Some (lit ''C9''), 1)]\<rparr>)"
  using applyVisibilityRules_total
    [of "initial_state\<lparr>linkBrgyToCity := [(Some (lit ''B9''), 0)],
                       linkCityToProv := [(Some (lit ''C9''), 1)]\<rparr>"
        "Some (lit ''B9'')" 0 "Some (lit ''C9'')" 1]
  by (simp add: initial_state_def)

subsection \<open>Object identities and keys after the loops of addMarkersAndLinks\<close>

lemma update_entry:
  "e \<in> set (AList.update k v al) \<Longrightarrow> e = (k, v) \<or> e \<in> set al"
  by (induction al) (auto split: if_splits)

lemma distinct_update_vals:
  "distinct (map snd al) \<Longrightarrow> v \<notin> snd ` set al \<Longrightarrow> distinct (map snd (AList.update k v al))"
proof (induction al)
  case Nil
  show ?case by simp
next
  case (Cons p al)
  show ?case
  proof (cases "fst p = k")
    case True
    with Cons.prems show ?thesis by simp
  next
    case False
    have "snd p \<notin> snd ` set (AList.update k v al)"
    proof
      assume "snd p \<in> snd ` set (AList.update k v al)"
      then obtain e where e: "e \<in> set (AList.update k v al)" "snd e = snd p" by auto
      from update_entry [OF e(1)] show False
      proof
        assume "e = (k, v)"
        with e(2) Cons.prems(2) show False by simp
      next
        assume "e \<in> set al"
        then have "snd e \<in> snd ` set al" by (rule imageI)
        with e(2) Cons.prems(1) show False by simp
      qed
    qed
    with False Cons show ?thesis by simp
  qed
qed

lemma fold_inv:
  "P s \<Longrightarrow> (\<And>x s. x \<in> set xs \<Longrightarrow> P s \<Longrightarrow> P (f x s)) \<Longrightarrow> P (fold f xs s)"
  by (induction xs arbitrary: s) simp_all

lemma data_clearMapObjects [simp]: "data (clearMapObjects s) = data s"
  by (simp add: data_def clearMapObjects_def)

lemma data_newMarker [simp]: "data (newMarker t k ll ic s) = data s"
  by (cases t) (simp_all add: data_def newMarker_def Let_def)

lemma data_addProvinceMarker [simp]: "data (addProvinceMarker p s) = data s"
  by (simp add: addProvinceMarker_def split: option.split)

lemma data_addCityMarker [simp]: "data (addCityMarker c s) = data s"
  by (simp add: addCityMarker_def split: option.split)

lemma data_addBarangayMarker [simp]: "data (addBarangayMarker b s) = data s"
  by (simp add: addBarangayMarker_def split: option.split)

lemma data_addBrgyLink [simp]: "data (addBrgyLink b s) = data s"
  by (simp add: addBrgyLink_def newLine_def Let_def data_def split: option.split)

lemma data_addCityLink [simp]: "data (addCityLink c s) = data s"
  by (simp add: addCityLink_def newLine_def Let_def data_def split: option.split)

lemma data_eqD:
  assumes "data s = data s'"
  shows "barangays s = barangays s'" "cities s = cities s'" "provinces s = provinces s'"
    "cityById s = cityById s'" "provinceById s = provinceById s'"
    "barangaysByCity s = barangaysByCity s'" "enabled s = enabled s'" "tree s = tree s'"
  using assms by (simp_all add: data_def)

lemma newMarker_fields:
  "markers (newMarker t k ll ic s) = (markers s)(t := AList.update k (next_ref s) (markers s t))"
  "next_ref (newMarker t k ll ic s) = Suc (next_ref s)"
  "linkBrgyToCity (newMarker t k ll ic s) = linkBrgyToCity s"
  "linkCityToProv (newMarker t k ll ic s) = linkCityToProv s"
  by (cases t; simp add: newMarker_def Let_def)+

lemma refsOk_newMarker:
  assumes "refsOk s"
  shows "refsOk (newMarker t k ll ic s)"
proof -
  let ?m = "next_ref s" and ?s' = "newMarker t k ll ic s"
  from assms have old: "\<And>t' e. e \<in> set (markers s t') \<Longrightarrow> snd e < ?m"
    and dist: "\<And>t'. distinct (map snd (markers s t'))"
    and disj: "\<And>t' t''. t' \<noteq> t'' \<Longrightarrow> snd ` set (markers s t') \<inter> snd ` set (markers s t'') = {}"
    and lb: "\<And>e. e \<in> set (linkBrgyToCity s) \<Longrightarrow> snd e < ?m"
    and lc: "\<And>e. e \<in> set (linkCityToProv s) \<Longrightarrow> snd e < ?m"
    and ld: "distinct (map snd (linkBrgyToCity s) @ map snd (linkCityToProv s))"
    by (auto simp: refsOk_def)
  have fresh: "?m \<notin> snd ` set (markers s t')" for t'
    using old [of _ t'] by fastforce
  have new: "e = (k, ?m) \<or> e \<in> set (markers s t')" if "e \<in> set (markers ?s' t')" for e t'
    using that update_entry [of e k ?m "markers s t"]
    by (auto simp: newMarker_fields split: if_splits)
  have 1: "\<forall>t'. \<forall>e \<in> set (markers ?s' t'). snd e < next_ref ?s'"
    using new old by (fastforce simp: newMarker_fields(2))
  have 2: "\<forall>t'. distinct (map snd (markers ?s' t'))"
    using dist fresh by (simp add: newMarker_fields distinct_update_vals)
  have 3: "\<forall>t' t''. t' \<noteq> t'' \<longrightarrow>
             snd ` set (markers ?s' t') \<inter> snd ` set (markers ?s' t'') = {}"
  proof (intro allI impI)
    fix t' t'' :: node_type
    assume ne: "t' \<noteq> t''"
    show "snd ` set (markers ?s' t') \<inter> snd ` set (markers ?s' t'') = {}"
    proof (rule ccontr)
      assume "snd ` set (markers ?s' t') \<inter> snd ` set (markers ?s' t'') \<noteq> {}"
      then obtain e e' where e: "e \<in> set (markers ?s' t')" "e' \<in> set (markers ?s' t'')"
        "snd e = snd e'" by auto
      from ne have "t' \<noteq> t \<or> t'' \<noteq> t" by auto
      then show False
      proof
        assume "t' \<noteq> t"
        with e(1) have a: "e \<in> set (markers s t')" by (simp add: newMarker_fields)
        from new [OF e(2)] show False
        proof
          assume "e' = (k, ?m)"
          with old [OF a] e(3) show False by simp
        next
          assume "e' \<in> set (markers s t'')"
          with a e(3) disj [OF ne] show False by (metis disjoint_iff imageI)
        qed
      next
        assume "t'' \<noteq> t"
        with e(2) have a: "e' \<in> set (markers s t'')" by (simp add: newMarker_fields)
        from new [OF e(1)] show False
        proof
          assume "e = (k, ?m)"
          with old [OF a] e(3) show False by simp
        next
          assume "e \<in> set (markers s t')"
          with a e(3) disj [OF ne] show False by (metis disjoint_iff imageI)
        qed
      qed
    qed
  qed
  have 4: "\<forall>e \<in> set (linkBrgyToCity ?s'). snd e < next_ref ?s'"
    using lb by (auto simp: newMarker_fields less_Suc_eq)
  have 5: "\<forall>e \<in> set (linkCityToProv ?s'). snd e < next_ref ?s'"
    using lc by (auto simp: newMarker_fields less_Suc_eq)
  have 6: "distinct (map snd (linkBrgyToCity ?s') @ map snd (linkCityToProv ?s'))"
    using ld by (simp add: newMarker_fields)
  from 1 2 3 4 5 6 show ?thesis unfolding refsOk_def by blast
qed

lemma addBrgyLink_cases:
  "addBrgyLink b s = s \<or>
   (\<exists>blat blon c clat clon.
      b_lat b = Some blat \<and> b_lon b = Some blon \<and> truthy_id (b_city_id b) \<and>
      map_of (cityById s) (b_city_id b) = Some c \<and> c_lat c = Some clat \<and> c_lon c = Some clon \<and>
      addBrgyLink b s =
        s\<lparr>next_ref := Suc (next_ref s),
          line_latlngs := (line_latlngs s)(next_ref s \<mapsto> ((blat, blon), (clat, clon))),
          layerLinks := insert (next_ref s) (layerLinks s),
          linkBrgyToCity := AList.update (b_brgy_id b) (next_ref s) (linkBrgyToCity s)\<rparr>)"
  by (auto simp: addBrgyLink_def newLine_def Let_def split: option.split)

lemma addCityLink_cases:
  "addCityLink c s = s \<or>
   (\<exists>clat clon p plat plon.
      c_lat c = Some clat \<and> c_lon c = Some clon \<and> truthy_id (c_province_id c) \<and>
      map_of (provinceById s) (c_province_id c) = Some p \<and>
      p_lat p = Some plat \<and> p_lon p = Some plon \<and>
      addCityLink c s =
        s\<lparr>next_ref := Suc (next_ref s),
          line_latlngs := (line_latlngs s)(next_ref s \<mapsto> ((clat, clon), (plat, plon))),
          layerLinks := insert (next_ref s) (layerLinks s),
          linkCityToProv := AList.update (c_city_id c) (next_ref s) (linkCityToProv s)\<rparr>)"
  by (auto simp: addCityLink_def newLine_def Let_def split: option.split)

lemma refsOk_newLink:
  assumes "refsOk s" and "next_ref s' = Suc (next_ref s)" and "markers s' = markers s"
    and "(linkBrgyToCity s' = AList.update k (next_ref s) (linkBrgyToCity s) \<and>
          linkCityToProv s' = linkCityToProv s) \<or>
         (linkCityToProv s' = AList.update k (next_ref s) (linkCityToProv s) \<and>
          linkBrgyToCity s' = linkBrgyToCity s)"
  shows "refsOk s'"
proof -
  let ?m = "next_ref s"
  from assms(1) have old: "\<forall>t. \<forall>e \<in> set (markers s t). snd e < ?m"
    and dist: "\<forall>t. distinct (map snd (markers s t))"
    and disj: "\<forall>t t'. t \<noteq> t' \<longrightarrow> snd ` set (markers s t) \<inter> snd ` set (markers s t') = {}"
    and lb: "\<And>e. e \<in> set (linkBrgyToCity s) \<Longrightarrow> snd e < ?m"
    and lc: "\<And>e. e \<in> set (linkCityToProv s) \<Longrightarrow> snd e < ?m"
    and ld: "distinct (map snd (linkBrgyToCity s) @ map snd (linkCityToProv s))"
    by (auto simp: refsOk_def)
  have fb: "?m \<notin> snd ` set (linkBrgyToCity s)" using lb by fastforce
  have fc: "?m \<notin> snd ` set (linkCityToProv s)" using lc by fastforce
  have 1: "\<forall>t. \<forall>e \<in> set (markers s' t). snd e < next_ref s'"
    using old assms(2,3) by (auto simp: less_Suc_eq)
  have 4: "\<forall>e \<in> set (linkBrgyToCity s'). snd e < next_ref s'"
    using assms(4) lb update_entry [of _ k ?m "linkBrgyToCity s"]
    by (fastforce simp: assms(2) less_Suc_eq)
  have 5: "\<forall>e \<in> set (linkCityToProv s'). snd e < next_ref s'"
    using assms(4) lc update_entry [of _ k ?m "linkCityToProv s"]
    by (fastforce simp: assms(2) less_Suc_eq)
  have 6: "distinct (map snd (linkBrgyToCity s') @ map snd (linkCityToProv s'))"
    using assms(4)
  proof
    assume a: "linkBrgyToCity s' = AList.update k ?m (linkBrgyToCity s) \<and>
               linkCityToProv s' = linkCityToProv s"
    have "snd ` set (AList.update k ?m (linkBrgyToCity s)) \<inter> snd ` set (linkCityToProv s) = {}"
    proof (rule ccontr)
      assume "\<not> ?thesis"
      then obtain e e' where e: "e \<in> set (AList.update k ?m (linkBrgyToCity s))"
        "e' \<in> set (linkCityToProv s)" "snd e = snd e'" by auto
      from update_entry [OF e(1)] show False
      proof
        assume "e = (k, ?m)"
        with lc [OF e(2)] e(3) show False by simp
      next
        assume "e \<in> set (linkBrgyToCity s)"
        with e(2,3) ld show False by (metis disjoint_iff distinct_append imageI set_map)
      qed
    qed
    with a ld fb show ?thesis by (simp add: distinct_update_vals)
  next
    assume a: "linkCityToProv s' = AList.update k ?m (linkCityToProv s) \<and>
               linkBrgyToCity s' = linkBrgyToCity s"
    have "snd ` set (linkBrgyToCity s) \<inter> snd ` set (AList.update k ?m (linkCityToProv s)) = {}"
    proof (rule ccontr)
      assume "\<not> ?thesis"
      then obtain e e' where e: "e' \<in> set (AList.update k ?m (linkCityToProv s))"
        "e \<in> set (linkBrgyToCity s)" "snd e = snd e'" by auto
      from update_entry [OF e(1)] show False
      proof
        assume "e' = (k, ?m)"
        with lb [OF e(2)] e(3) show False by simp
      next
        assume "e' \<in> set (linkCityToProv s)"
        with e(2,3) ld show False by (metis disjoint_iff distinct_append imageI set_map)
      qed
    qed
    with a ld fc show ?thesis by (simp add: distinct_update_vals)
  qed
  from 1 dist disj 4 5 6 assms(3) show ?thesis unfolding refsOk_def by simp
qed

lemma refsOk_addBrgyLink:
  assumes "refsOk s"
  shows "refsOk (addBrgyLink b s)"
  using addBrgyLink_cases [of b s]
proof (elim disjE exE conjE)
  assume "addBrgyLink b s = s"
  with assms show ?thesis by simp
next
  fix blat blon c clat clon
  assume eq: "addBrgyLink b s =
        s\<lparr>next_ref := Suc (next_ref s),
          line_latlngs := (line_latlngs s)(next_ref s \<mapsto> ((blat, blon), (clat, clon))),
          layerLinks := insert (next_ref s) (layerLinks s),
          linkBrgyToCity := AList.update (b_brgy_id b) (next_ref s) (linkBrgyToCity s)\<rparr>"
  show ?thesis
    by (rule refsOk_newLink [OF assms, where k = "b_brgy_id b"]) (simp_all add: eq)
qed

lemma refsOk_addCityLink:
  assumes "refsOk s"
  shows "refsOk (addCityLink c s)"
  using addCityLink_cases [of c s]
proof (elim disjE exE conjE)
  assume "addCityLink c s = s"
  with assms show ?thesis by simp
next
  fix clat clon p plat plon
  assume eq: "addCityLink c s =
        s\<lparr>next_ref := Suc (next_ref s),
          line_latlngs := (line_latlngs s)(next_ref s \<mapsto> ((clat, clon), (plat, plon))),
          layerLinks := insert (next_ref s) (layerLinks s),
          linkCityToProv := AList.update (c_city_id c) (next_ref s) (linkCityToProv s)\<rparr>"
  show ?thesis
    by (rule refsOk_newLink [OF assms, where k = "c_city_id c"]) (simp_all add: eq)
qed

lemma refsOk_addMarker:
  "refsOk s \<Longrightarrow> refsOk (addProvinceMarker p s)"
  "refsOk s \<Longrightarrow> refsOk (addCityMarker c s)"
  "refsOk s \<Longrightarrow> refsOk (addBarangayMarker b s)"
  by (simp_all add: addProvinceMarker_def addCityMarker_def addBarangayMarker_def
      refsOk_newMarker split: option.split)

lemma refsOk_clearMapObjects: "refsOk (clearMapObjects s)"
  by (simp add: refsOk_def clearMapObjects_def)

lemma keysOk_clearMapObjects: "keysOk (clearMapObjects s)"
  by (simp add: keysOk_def clearMapObjects_def)

lemma keysOk_addProvinceMarker:
  assumes "keysOk s" "p \<in> set (provinces s)"
  shows "keysOk (addProvinceMarker p s)"
proof (cases "p_lat p = None \<or> p_lon p = None")
  case True
  then have "addProvinceMarker p s = s" by (auto simp: addProvinceMarker_def split: option.split)
  with assms show ?thesis by simp
next
  case False
  then obtain la lo where ll: "p_lat p = Some la" "p_lon p = Some lo" by auto
  let ?s' = "newMarker Province (p_province_id p) (la, lo) provinceIconEnabled s"
  have eq: "addProvinceMarker p s = ?s'" by (simp add: addProvinceMarker_def ll)
  note d = data_eqD [OF data_newMarker, of Province "p_province_id p" "(la, lo)" provinceIconEnabled s]
  have "\<exists>q \<in> set (provinces s). p_province_id q = fst e \<and> p_lat q \<noteq> None \<and> p_lon q \<noteq> None"
    if "e \<in> set (markers ?s' Province)" for e
    using that assms update_entry [of e "p_province_id p" "next_ref s" "markers s Province"] ll
    by (auto simp: newMarker_fields keysOk_def)
  with assms(1) show ?thesis
    unfolding eq keysOk_def by (simp add: d newMarker_fields)
qed

lemma keysOk_addCityMarker:
  assumes "keysOk s" "c \<in> set (cities s)"
  shows "keysOk (addCityMarker c s)"
proof (cases "c_lat c = None \<or> c_lon c = None")
  case True
  then have "addCityMarker c s = s" by (auto simp: addCityMarker_def split: option.split)
  with assms show ?thesis by simp
next
  case False
  then obtain la lo where ll: "c_lat c = Some la" "c_lon c = Some lo" by auto
  let ?s' = "newMarker City (c_city_id c) (la, lo) cityIconEnabled s"
  have eq: "addCityMarker c s = ?s'" by (simp add: addCityMarker_def ll)
  note d = data_eqD [OF data_newMarker, of City "c_city_id c" "(la, lo)" cityIconEnabled s]
  have "\<exists>q \<in> set (cities s). c_city_id q = fst e \<and> c_lat q \<noteq> None \<and> c_lon q \<noteq> None"
    if "e \<in> set (markers ?s' City)" for e
    using that assms update_entry [of e "c_city_id c" "next_ref s" "markers s City"] ll
    by (auto simp: newMarker_fields keysOk_def)
  with assms(1) show ?thesis
    unfolding eq keysOk_def by (simp add: d newMarker_fields)
qed

lemma keysOk_addBarangayMarker:
  assumes "keysOk s" "b \<in> set (barangays s)"
  shows "keysOk (addBarangayMarker b s)"
proof (cases "b_lat b = None \<or> b_lon b = None")
  case True
  then have "addBarangayMarker b s = s"
    by (auto simp: addBarangayMarker_def split: option.split)
  with assms show ?thesis by simp
next
  case False
  then obtain la lo where ll: "b_lat b = Some la" "b_lon b = Some lo" by auto
  let ?s' = "newMarker Barangay (b_brgy_id b) (la, lo) brgyIconEnabled s"
  have eq: "addBarangayMarker b s = ?s'" by (simp add: addBarangayMarker_def ll)
  note d = data_eqD [OF data_newMarker, of Barangay "b_brgy_id b" "(la, lo)" brgyIconEnabled s]
  have "\<exists>q \<in> set (barangays s). b_brgy_id q = fst e \<and> b_lat q \<noteq> None \<and> b_lon q \<noteq> None"
    if "e \<in> set (markers ?s' Barangay)" for e
    using that assms update_entry [of e "b_brgy_id b" "next_ref s" "markers s Barangay"] ll
    by (auto simp: newMarker_fields keysOk_def)
  with assms(1) show ?thesis
    unfolding eq keysOk_def by (simp add: d newMarker_fields)
qed

lemma keysOk_addBrgyLink:
  assumes "keysOk s" "b \<in> set (barangays s)"
  shows "keysOk (addBrgyLink b s)"
  using addBrgyLink_cases [of b s]
proof (elim disjE exE conjE)
  assume "addBrgyLink b s = s"
  with assms show ?thesis by simp
next
  fix blat blon c clat clon
  assume eq: "addBrgyLink b s =
        s\<lparr>next_ref := Suc (next_ref s),
          line_latlngs := (line_latlngs s)(next_ref s \<mapsto> ((blat, blon), (clat, clon))),
          layerLinks := insert (next_ref s) (layerLinks s),
          linkBrgyToCity := AList.update (b_brgy_id b) (next_ref s) (linkBrgyToCity s)\<rparr>"
  have "\<exists>q \<in> set (barangays s). b_brgy_id q = fst e"
    if "e \<in> set (AList.update (b_brgy_id b) (next_ref s) (linkBrgyToCity s))" for e
    using update_entry [OF that] assms by (auto simp: keysOk_def)
  with assms(1) show ?thesis unfolding eq keysOk_def by simp
qed

lemma keysOk_addCityLink:
  assumes "keysOk s" "c \<in> set (cities s)"
  shows "keysOk (addCityLink c s)"
  using addCityLink_cases [of c s]
proof (elim disjE exE conjE)
  assume "addCityLink c s = s"
  with assms show ?thesis by simp
next
  fix clat clon p plat plon
  assume c: "c_lat c = Some clat" "c_lon c = Some clon" "truthy_id (c_province_id c)"
  assume eq: "addCityLink c s =
        s\<lparr>next_ref := Suc (next_ref s),
          line_latlngs := (line_latlngs s)(next_ref s \<mapsto> ((clat, clon), (plat, plon))),
          layerLinks := insert (next_ref s) (layerLinks s),
          linkCityToProv := AList.update (c_city_id c) (next_ref s) (linkCityToProv s)\<rparr>"
  have "\<exists>q \<in> set (cities s). c_city_id q = fst e \<and> c_lat q \<noteq> None \<and> c_lon q \<noteq> None \<and>
          truthy_id (c_province_id q)"
    if "e \<in> set (AList.update (c_city_id c) (next_ref s) (linkCityToProv s))" for e
    using update_entry [OF that] assms c by (auto simp: keysOk_def)
  with assms(1) show ?thesis unfolding eq keysOk_def by simp
qed

lemma placeObjects_placed: "placed s (placeObjects s)"
proof -
  define s0 where "s0 = clearMapObjects s"
  define s1 where "s1 = fold addProvinceMarker (provinces s0) s0"
  define s2 where "s2 = fold addCityMarker (cities s1) s1"
  define s3 where "s3 = fold addBarangayMarker (barangays s2) s2"
  define s4 where "s4 = fold addBrgyLink (barangays s3) s3"
  define s5 where "s5 = fold addCityLink (cities s4) s4"
  have eq: "placeObjects s = s5"
    by (simp add: placeObjects_def Let_def s0_def s1_def s2_def s3_def s4_def s5_def)
  have p0: "placed s s0"
    by (simp add: placed_def s0_def refsOk_clearMapObjects keysOk_clearMapObjects)
  have p1: "placed s s1" unfolding s1_def
  proof (rule fold_inv [where P = "placed s", OF p0])
    fix x s' assume x: "x \<in> set (provinces s0)" and p: "placed s s'"
    from p have d: "data s' = data s" by (simp add: placed_def)
    from p0 have d0: "data s0 = data s" by (simp add: placed_def)
    from x data_eqD(3) [OF d] data_eqD(3) [OF d0] have "x \<in> set (provinces s')" by simp
    with p show "placed s (addProvinceMarker x s')"
      by (simp add: placed_def refsOk_addMarker keysOk_addProvinceMarker)
  qed
  have p2: "placed s s2" unfolding s2_def
  proof (rule fold_inv [where P = "placed s", OF p1])
    fix x s' assume x: "x \<in> set (cities s1)" and p: "placed s s'"
    from p have d: "data s' = data s" by (simp add: placed_def)
    from p1 have d0: "data s1 = data s" by (simp add: placed_def)
    from x data_eqD(2) [OF d] data_eqD(2) [OF d0] have "x \<in> set (cities s')" by simp
    with p show "placed s (addCityMarker x s')"
      by (simp add: placed_def refsOk_addMarker keysOk_addCityMarker)
  qed
  have p3: "placed s s3" unfolding s3_def
  proof (rule fold_inv [where P = "placed s", OF p2])
    fix x s' assume x: "x \<in> set (barangays s2)" and p: "placed s s'"
    from p have d: "data s' = data s" by (simp add: placed_def)
    from p2 have d0: "data s2 = data s" by (simp add: placed_def)
    from x data_eqD(1) [OF d] data_eqD(1) [OF d0] have "x \<in> set (barangays s')" by simp
    with p show "placed s (addBarangayMarker x s')"
      by (simp add: placed_def refsOk_addMarker keysOk_addBarangayMarker)
  qed
  have p4: "placed s s4" unfolding s4_def
  proof (rule fold_inv [where P = "placed s", OF p3])
    fix x s' assume x: "x \<in> set (barangays s3)" and p: "placed s s'"
    from p have d: "data s' = data s" by (simp add: placed_def)
    from p3 have d0: "data s3 = data s" by (simp add: placed_def)
    from x data_eqD(1) [OF d] data_eqD(1) [OF d0] have "x \<in> set (barangays s')" by simp
    with p show "placed s (addBrgyLink x s')"
      by (simp add: placed_def refsOk_addBrgyLink keysOk_addBrgyLink)
  qed
  have p5: "placed s s5" unfolding s5_def
  proof (rule fold_inv [where P = "placed s", OF p4])
    fix x s' assume x: "x \<in> set (cities s4)" and p: "placed s s'"
    from p have d: "data s' = data s" by (simp add: placed_def)
    from p4 have d0: "data s4 = data s" by (simp add: placed_def)
    from x data_eqD(2) [OF d] data_eqD(2) [OF d0] have "x \<in> set (cities s')" by simp
    with p show "placed s (addCityLink x s')"
      by (simp add: placed_def refsOk_addCityLink keysOk_addCityLink)
  qed
  from p5 eq show ?thesis by simp
qed

subsection \<open>The data phase of main\<close>

lemma fold_field: "(\<And>x s. g (f x s) = g s) \<Longrightarrow> g (fold f xs s) = g s"
  by (induction xs arbitrary: s) simp_all

lemma indexCity_fields [simp]:
  "barangays (indexCity c s) = barangays s" "cities (indexCity c s) = cities s"
  "provinces (indexCity c s) = provinces s"
  by (simp_all add: indexCity_def)

lemma indexProvince_fields [simp]:
  "barangays (indexProvince p s) = barangays s" "cities (indexProvince p s) = cities s"
  "provinces (indexProvince p s) = provinces s" "cityById (indexProvince p s) = cityById s"
  by (simp_all add: indexProvince_def)

lemma groupBarangay_fields [simp]:
  "barangays (groupBarangay b s) = barangays s" "cities (groupBarangay b s) = cities s"
  "provinces (groupBarangay b s) = provinces s" "cityById (groupBarangay b s) = cityById s"
  "provinceById (groupBarangay b s) = provinceById s"
  by (simp_all add: groupBarangay_def Let_def)

lemma enabledSet_fields [simp]:
  "barangays (enabledSet t k v s) = barangays s" "cities (enabledSet t k v s) = cities s"
  "provinces (enabledSet t k v s) = provinces s" "cityById (enabledSet t k v s) = cityById s"
  "provinceById (enabledSet t k v s) = provinceById s"
  "barangaysByCity (enabledSet t k v s) = barangaysByCity s"
  by (simp_all add: enabledSet_def)

lemma buildTree_fields [simp]:
  "barangays (buildTree cmp s) = barangays s" "cities (buildTree cmp s) = cities s"
  "provinces (buildTree cmp s) = provinces s" "cityById (buildTree cmp s) = cityById s"
  "provinceById (buildTree cmp s) = provinceById s"
  "barangaysByCity (buildTree cmp s) = barangaysByCity s"
  "enabled (buildTree cmp s) = enabled s"
  by (simp_all add: buildTree_def Let_def)

lemma loadData_lists:
  "barangays (loadData numLit B C P) = barangaysAll numLit B"
  "cities (loadData numLit B C P) = citiesAll numLit C"
  "provinces (loadData numLit B C P) = provincesAll numLit P"
  by (simp_all add: loadData_def indexRows_def Let_def fold_field)

lemma loadData_cityById:
  "cityById (loadData numLit B C P) =
   cityById (fold indexCity (citiesAll numLit C)
     (initial_state\<lparr>barangays := barangaysAll numLit B, cities := citiesAll numLit C,
        provinces := provincesAll numLit P, cityById := []\<rparr>))"
  by (simp add: loadData_def indexRows_def Let_def fold_field)

lemma indexCity_sound:
  assumes "\<forall>k c'. map_of (cityById s) k = Some c' \<longrightarrow> c' \<in> A \<and> c_city_id c' = k"
    and "set xs \<subseteq> A"
  shows "\<forall>k c'. map_of (cityById (fold indexCity xs s)) k = Some c' \<longrightarrow>
           c' \<in> A \<and> c_city_id c' = k"
  using assms
proof (induction xs arbitrary: s)
  case Nil
  then show ?case by simp
next
  case (Cons x xs)
  have "\<forall>k c'. map_of (cityById (indexCity x s)) k = Some c' \<longrightarrow> c' \<in> A \<and> c_city_id c' = k"
    using Cons.prems by (auto simp: indexCity_def AList.update_conv' split: if_splits)
  with Cons.IH [of "indexCity x s"] Cons.prems(2) show ?case by simp
qed

lemma indexCity_keeps:
  "map_of (cityById s) k \<noteq> None \<Longrightarrow> map_of (cityById (fold indexCity xs s)) k \<noteq> None"
proof (induction xs arbitrary: s)
  case Nil
  then show ?case by simp
next
  case (Cons x xs)
  from Cons.prems have "map_of (cityById (indexCity x s)) k \<noteq> None"
    by (simp add: indexCity_def AList.update_conv')
  then show ?case using Cons.IH by simp
qed

lemma indexCity_complete:
  "c \<in> set xs \<Longrightarrow> c_lat c \<noteq> None \<Longrightarrow> c_lon c \<noteq> None \<Longrightarrow>
   map_of (cityById (fold indexCity xs s)) (c_city_id c) \<noteq> None"
proof (induction xs arbitrary: s)
  case Nil
  then show ?case by simp
next
  case (Cons x xs)
  show ?case
  proof (cases "c = x")
    case True
    with Cons.prems have "map_of (cityById (indexCity x s)) (c_city_id c) \<noteq> None"
      by (simp add: indexCity_def AList.update_conv')
    then show ?thesis using indexCity_keeps by simp
  next
    case False
    with Cons.prems have "c \<in> set xs" by simp
    then show ?thesis using Cons.IH Cons.prems(2,3) by simp
  qed
qed

lemma loadData_cityById_sound:
  "map_of (cityById (loadData numLit B C P)) k = Some c \<Longrightarrow>
   c \<in> set (cities (loadData numLit B C P)) \<and> c_city_id c = k"
  using indexCity_sound [of
      "initial_state\<lparr>barangays := barangaysAll numLit B, cities := citiesAll numLit C,
        provinces := provincesAll numLit P, cityById := []\<rparr>"
      "set (citiesAll numLit C)" "citiesAll numLit C"]
  by (simp add: loadData_cityById loadData_lists)

lemma loadData_cityById_complete:
  "c \<in> set (cities (loadData numLit B C P)) \<Longrightarrow> c_lat c \<noteq> None \<Longrightarrow> c_lon c \<noteq> None \<Longrightarrow>
   map_of (cityById (loadData numLit B C P)) (c_city_id c) \<noteq> None"
  by (simp add: loadData_cityById loadData_lists indexCity_complete)

lemma barangaysAll_truthy:
  "b \<in> set (barangaysAll numLit B) \<Longrightarrow>
   truthy_id (b_brgy_id b) \<and> truthy_id (b_city_id b) \<and> truthy_num (b_lat b) \<and>
   truthy_num (b_lon b)"
  by (simp add: barangaysAll_def)

subsection \<open>Well-formed data after loading\<close>

lemma refsOk_distinct_allMarkers:
  assumes "refsOk s"
  shows "distinct (map (\<lambda>e. snd (snd e)) (allMarkers s))"
proof -
  from assms have dist: "\<And>t. distinct (map snd (markers s t))"
    and disj: "\<And>t t'. t \<noteq> t' \<Longrightarrow> snd ` set (markers s t) \<inter> snd ` set (markers s t') = {}"
    by (auto simp: refsOk_def)
  have m: "(\<lambda>e. snd (snd e)) \<circ> Pair t = (snd :: js_id \<times> nat \<Rightarrow> nat)" for t :: node_type
    by (simp add: fun_eq_iff)
  show ?thesis
    using dist [of Province] dist [of City] dist [of Barangay]
      disj [of Province City] disj [of Province Barangay] disj [of City Barangay]
    by (simp add: allMarkers_def m Int_Un_distrib)
qed

lemma base_dataWf: "dataWf (base numLit cmp B C P)"
proof -
  let ?D = "loadData numLit B C P"
  let ?T = "buildTree cmp ?D"
  have pl: "placed ?T (base numLit cmp B C P)"
    unfolding base_def by (rule placeObjects_placed)
  then have d: "data (base numLit cmp B C P) = data ?T" and r: "refsOk (base numLit cmp B C P)"
    and k: "keysOk (base numLit cmp B C P)"
    by (simp_all add: placed_def)
  note f = data_eqD [OF d]
  from r have 1: "distinct (map snd (linkBrgyToCity (base numLit cmp B C P)) @
                    map snd (linkCityToProv (base numLit cmp B C P)))"
    by (simp add: refsOk_def)
  have 4: "\<forall>b \<in> set (barangays (base numLit cmp B C P)).
             truthy_id (b_brgy_id b) \<and> truthy_id (b_city_id b) \<and>
             truthy_num (b_lat b) \<and> truthy_num (b_lon b)"
    using barangaysAll_truthy by (simp add: f loadData_lists)
  have 5: "\<forall>k c. map_of (cityById (base numLit cmp B C P)) k = Some c \<longrightarrow>
             c \<in> set (cities (base numLit cmp B C P)) \<and> c_city_id c = k"
    using loadData_cityById_sound [of numLit B C P] by (simp add: f)
  have 6: "\<forall>c \<in> set (cities (base numLit cmp B C P)). c_lat c \<noteq> None \<and> c_lon c \<noteq> None \<longrightarrow>
             map_of (cityById (base numLit cmp B C P)) (c_city_id c) \<noteq> None"
    using loadData_cityById_complete [of _ numLit B C P] by (simp add: f)
  from 1 refsOk_distinct_allMarkers [OF r] k 4 5 6 show ?thesis
    unfolding dataWf_def by blast
qed

lemma dataWf_static:
  assumes "static s = static s'" and "dataWf s"
  shows "dataWf s'"
  using assms(2) static_eqD [OF assms(1)]
  by (simp add: dataWf_def keysOk_def allMarkers_def)

lemma find_first:
  "\<exists>x \<in> set xs. P x \<Longrightarrow> \<exists>y. find P xs = Some y \<and> P y \<and> y \<in> set xs"
  by (induction xs) auto

lemma dataWf_brgy_decision:
  assumes "dataWf s" and "(k, l) \<in> set (linkBrgyToCity s)"
  shows "\<exists>b. find (\<lambda>x. b_brgy_id x = k) (barangays s) = Some b \<and> b \<in> set (barangays s) \<and>
           b_brgy_id b = k \<and>
           brgyLineVisible s k =
             Some (getEnabled s Barangay k \<and> getEnabled s City (b_city_id b))"
proof -
  from assms have "\<exists>b \<in> set (barangays s). b_brgy_id b = k"
    by (fastforce simp: dataWf_def keysOk_def)
  from find_first [OF this] obtain b where b: "find (\<lambda>x. b_brgy_id x = k) (barangays s) = Some b"
    "b_brgy_id b = k" "b \<in> set (barangays s)" by blast
  with assms(1) have "truthy_id (b_city_id b)" by (simp add: dataWf_def)
  with b show ?thesis by (simp add: brgyLineVisible_def)
qed

lemma dataWf_city_decision:
  assumes "dataWf s" and "(k, l) \<in> set (linkCityToProv s)"
  shows "\<exists>c. map_of (cityById s) k = Some c \<and> c \<in> set (cities s) \<and> c_city_id c = k \<and>
           cityLineVisible s k =
             Some (getEnabled s City k \<and>
                   (if truthy_id (c_province_id c) then getEnabled s Province (c_province_id c)
                    else True))"
proof -
  from assms obtain c0 where "c0 \<in> set (cities s)" "c_city_id c0 = k" "c_lat c0 \<noteq> None"
    "c_lon c0 \<noteq> None"
    by (fastforce simp: dataWf_def keysOk_def)
  with assms(1) have "map_of (cityById s) k \<noteq> None" by (auto simp: dataWf_def)
  then obtain c where c: "map_of (cityById s) k = Some c" by auto
  with assms(1) have "c \<in> set (cities s)" "c_city_id c = k" by (auto simp: dataWf_def)
  with c show ?thesis by (simp add: cityLineVisible_def)
qed

lemma settle_brgy_line:
  assumes "dataWf t" and "(k, l) \<in> set (linkBrgyToCity t)"
  shows "\<exists>b. find (\<lambda>x. b_brgy_id x = k) (barangays t) = Some b \<and> b \<in> set (barangays t) \<and>
           b_brgy_id b = k \<and>
           (l \<in> layerLinks (settle t)) =
             (getEnabled t Barangay k \<and> getEnabled t City (b_city_id b))"
proof -
  from dataWf_brgy_decision [OF assms] obtain b where
    b: "find (\<lambda>x. b_brgy_id x = k) (barangays t) = Some b" "b \<in> set (barangays t)"
      "b_brgy_id b = k"
      "brgyLineVisible t k = Some (getEnabled t Barangay k \<and> getEnabled t City (b_city_id b))"
    by blast
  from assms(1) have "distinct (map snd (linkBrgyToCity t) @ map snd (linkCityToProv t))"
    by (simp add: dataWf_def)
  from linksAfter_brgy [OF this assms(2) b(4)] b(1,2,3) show ?thesis by simp
qed

lemma settle_city_line:
  assumes "dataWf t" and "(k, l) \<in> set (linkCityToProv t)"
  shows "\<exists>c. map_of (cityById t) k = Some c \<and> c \<in> set (cities t) \<and> c_city_id c = k \<and>
           (l \<in> layerLinks (settle t)) =
             (getEnabled t City k \<and>
              (if truthy_id (c_province_id c) then getEnabled t Province (c_province_id c)
               else True))"
proof -
  from dataWf_city_decision [OF assms] obtain c where
    c: "map_of (cityById t) k = Some c" "c \<in> set (cities t)" "c_city_id c = k"
      "cityLineVisible t k =
         Some (getEnabled t City k \<and>
               (if truthy_id (c_province_id c) then getEnabled t Province (c_province_id c)
                else True))"
    by blast
  from assms(1) have "distinct (map snd (linkBrgyToCity t) @ map snd (linkCityToProv t))"
    by (simp add: dataWf_def)
  from linksAfter_city [OF this assms(2) c(4)] c(1,2,3) show ?thesis by simp
qed

lemma settle_icon:
  assumes "dataWf t" and "(k, m) \<in> set (markers t ty)"
  shows "marker_icon (settle t) m = Some (iconOf t ty k)"
proof -
  from assms(2) have "(ty, k, m) \<in> set (allMarkers t)"
    by (cases ty) (auto simp: allMarkers_def)
  moreover from assms(1) have "distinct (map (\<lambda>e. snd (snd e)) (allMarkers t))"
    by (simp add: dataWf_def)
  ultimately show ?thesis by (simp add: iconsAfter_def fold_putIcon_entry)
qed

subsection \<open>States reached by loading and by any session\<close>

lemma reached_base: "reached b (settle b)"
  unfolding reached_def by blast

lemma reached_step:
  assumes "reached b s"
  shows "reached b (settle (setFlags e s))"
proof -
  from assms obtain t where t: "s = settle t" "static t = static b"
    and o: "\<And>l. l \<notin> snd ` set (linkBrgyToCity b) \<Longrightarrow> l \<notin> snd ` set (linkCityToProv b) \<Longrightarrow>
              (l \<in> layerLinks t) = (l \<in> layerLinks b)"
    unfolding reached_def by blast
  let ?t' = "setFlags e s"
  have st: "static ?t' = static b" using t by simp
  have "(l \<in> layerLinks ?t') = (l \<in> layerLinks b)"
    if "l \<notin> snd ` set (linkBrgyToCity b)" "l \<notin> snd ` set (linkCityToProv b)" for l
  proof -
    have "layerLinks ?t' = linksAfter t" using t(1) by simp
    moreover have "(l \<in> linksAfter t) = (l \<in> layerLinks t)"
      using that static_eqD(2,3) [OF t(2)] by (simp add: linksAfter_other)
    ultimately show ?thesis using o [OF that] by simp
  qed
  with st show ?thesis unfolding reached_def by blast
qed

lemma run_reached: "reached b s \<Longrightarrow> run es s = Inr s' \<Longrightarrow> reached b s'"
proof (induction es arbitrary: s)
  case Nil
  then show ?case by (simp add: run_def)
next
  case (Cons e es)
  from Cons.prems(2) have "run es (settle (setFlags e s)) = Inr s'"
    by (simp add: run_def onEvent_eq)
  with Cons.IH [OF reached_step [OF Cons.prems(1)]] show ?case by simp
qed

lemma main_run_reached:
  assumes "main numLit cmp B C P = Inr s0" and "run es s0 = Inr s"
  shows "reached (base numLit cmp B C P) s"
proof -
  from assms(1) have "s0 = settle (base numLit cmp B C P)" by (simp add: main_eq base_def)
  with run_reached [OF reached_base assms(2) [unfolded this]] show ?thesis by simp
qed

text \<open>What a reached state shows, given well-formed data.\<close>

lemma reached_fields:
  assumes "reached b s"
  shows "static s = static b"
  using assms unfolding reached_def by auto

lemma reached_brgy_line:
  assumes "reached b s" "dataWf b" "(k, l) \<in> set (linkBrgyToCity b)"
  shows "\<exists>r. find (\<lambda>x. b_brgy_id x = k) (barangays b) = Some r \<and> r \<in> set (barangays b) \<and>
           b_brgy_id r = k \<and>
           (l \<in> layerLinks s) = (getEnabled s Barangay k \<and> getEnabled s City (b_city_id r))"
proof -
  from assms(1) obtain t where t: "s = settle t" "static t = static b"
    unfolding reached_def by blast
  have wf: "dataWf t" using dataWf_static [OF t(2) [symmetric] assms(2)] .
  note f = static_eqD [OF t(2)]
  from settle_brgy_line [OF wf, of k l] assms(3) show ?thesis
    by (simp add: f t(1))
qed

lemma reached_city_line:
  assumes "reached b s" "dataWf b" "(k, l) \<in> set (linkCityToProv b)"
  shows "\<exists>c. map_of (cityById b) k = Some c \<and> c \<in> set (cities b) \<and> c_city_id c = k \<and>
           (l \<in> layerLinks s) = (getEnabled s City k \<and> parentOn s Province (c_province_id c))"
proof -
  from assms(1) obtain t where t: "s = settle t" "static t = static b"
    unfolding reached_def by blast
  have wf: "dataWf t" using dataWf_static [OF t(2) [symmetric] assms(2)] .
  note f = static_eqD [OF t(2)]
  from assms(3) have "(k, l) \<in> set (linkCityToProv t)" by (simp add: f)
  from settle_city_line [OF wf this] obtain c where
    c: "map_of (cityById t) k = Some c" "c \<in> set (cities t)" "c_city_id c = k"
      "(l \<in> layerLinks (settle t)) =
         (getEnabled t City k \<and>
          (if truthy_id (c_province_id c) then getEnabled t Province (c_province_id c)
           else True))"
    by blast
  from c(4) have "(l \<in> layerLinks s) = (getEnabled s City k \<and> parentOn s Province (c_province_id c))"
    unfolding parentOn_def t(1) by simp
  with c(1,2,3) show ?thesis unfolding f by blast
qed

lemma reached_other_line:
  assumes "reached b s" "l \<notin> snd ` set (linkBrgyToCity b)" "l \<notin> snd ` set (linkCityToProv b)"
  shows "(l \<in> layerLinks s) = (l \<in> layerLinks b)"
proof -
  from assms(1) obtain t where t: "s = settle t" "static t = static b"
    and o: "\<And>l. l \<notin> snd ` set (linkBrgyToCity b) \<Longrightarrow> l \<notin> snd ` set (linkCityToProv b) \<Longrightarrow>
              (l \<in> layerLinks t) = (l \<in> layerLinks b)"
    unfolding reached_def by blast
  have "(l \<in> linksAfter t) = (l \<in> layerLinks t)"
    using assms(2,3) static_eqD(2,3) [OF t(2)] by (simp add: linksAfter_other)
  with o [OF assms(2,3)] t(1) show ?thesis by simp
qed

lemma reached_icon:
  assumes "reached b s" "dataWf b" "(k, m) \<in> set (markers b ty)"
  shows "marker_icon s m = Some (iconOf s ty k)"
proof -
  from assms(1) obtain t where t: "s = settle t" "static t = static b"
    unfolding reached_def by blast
  have wf: "dataWf t" using dataWf_static [OF t(2) [symmetric] assms(2)] .
  from assms(3) have "(k, m) \<in> set (markers t ty)" by (simp add: static_eqD(1) [OF t(2)])
  from settle_icon [OF wf this] show ?thesis by (simp add: t(1) iconOf_def)
qed

lemma reached_same_flags:
  assumes "reached b s1" "reached b s2" "dataWf b" "getEnabled s1 = getEnabled s2"
  shows "layerLinks s1 = layerLinks s2"
proof (rule set_eqI)
  fix l
  consider (brgy) k where "(k, l) \<in> set (linkBrgyToCity b)"
    | (city) k where "(k, l) \<in> set (linkCityToProv b)"
    | (other) "l \<notin> snd ` set (linkBrgyToCity b)" "l \<notin> snd ` set (linkCityToProv b)"
    by force
  then show "(l \<in> layerLinks s1) = (l \<in> layerLinks s2)"
  proof cases
    case brgy
    from reached_brgy_line [OF assms(1,3) brgy] obtain r1 where
      r1: "find (\<lambda>x. b_brgy_id x = k) (barangays b) = Some r1"
        "(l \<in> layerLinks s1) = (getEnabled s1 Barangay k \<and> getEnabled s1 City (b_city_id r1))"
      by blast
    from reached_brgy_line [OF assms(2,3) brgy] obtain r2 where
      r2: "find (\<lambda>x. b_brgy_id x = k) (barangays b) = Some r2"
        "(l \<in> layerLinks s2) = (getEnabled s2 Barangay k \<and> getEnabled s2 City (b_city_id r2))"
      by blast
    from r1(1) r2(1) have "r1 = r2" by simp
    with r1(2) r2(2) show ?thesis by (simp add: assms(4))
  next
    case city
    from reached_city_line [OF assms(1,3) city] obtain c1 where
      c1: "map_of (cityById b) k = Some c1"
        "(l \<in> layerLinks s1) = (getEnabled s1 City k \<and> parentOn s1 Province (c_province_id c1))"
      by blast
    from reached_city_line [OF assms(2,3) city] obtain c2 where
      c2: "map_of (cityById b) k = Some c2"
        "(l \<in> layerLinks s2) = (getEnabled s2 City k \<and> parentOn s2 Province (c_province_id c2))"
      by blast
    from c1(1) c2(1) have "c1 = c2" by simp
    with c1(2) c2(2) show ?thesis by (simp add: assms(4) parentOn_def)
  next
    case other
    from reached_other_line [OF assms(1) other] reached_other_line [OF assms(2) other]
    show ?thesis by simp
  qed
qed

subsection \<open>The visibility rules, the frame of a province change, order independence and marker icons\<close>

lemma enabled_frame [simp]:
  "enabled (indexCity c s) = enabled s" "enabled (indexProvince p s) = enabled s"
  "enabled (groupBarangay b s) = enabled s"
  by (simp_all add: indexCity_def indexProvince_def groupBarangay_def Let_def)

lemma enabledSet_True_inv:
  assumes "\<forall>t. \<forall>e \<in> set (enabled s t). snd e"
  shows "\<forall>t. \<forall>e \<in> set (enabled (enabledSet ty k True s) t). snd e"
proof (intro allI ballI)
  fix t e assume e: "e \<in> set (enabled (enabledSet ty k True s) t)"
  show "snd e"
  proof (cases "t = ty")
    case True
    with e have "e \<in> set (AList.update k True (enabled s ty))" by (simp add: enabledSet_def)
    from update_entry [OF this] assms show ?thesis by auto
  next
    case False
    with e assms show ?thesis by (simp add: enabledSet_def)
  qed
qed

lemma fold_enabledSet_True:
  assumes "\<forall>t. \<forall>e \<in> set (enabled s t). snd e"
  shows "\<forall>t. \<forall>e \<in> set (enabled (fold (\<lambda>x. enabledSet ty (f x) True) xs s) t). snd e"
  using assms
proof (induction xs arbitrary: s)
  case Nil
  then show ?case by simp
next
  case (Cons x xs)
  from Cons.IH [OF enabledSet_True_inv [OF Cons.prems]] show ?case by simp
qed

lemma indexRows_flags: "\<forall>t. \<forall>e \<in> set (enabled (indexRows bAll cAll pAll) t). snd e"
proof -
  define s4 where "s4 =
    fold groupBarangay bAll
      ((fold indexProvince pAll
         ((fold indexCity cAll
            (initial_state\<lparr>barangays := bAll, cities := cAll, provinces := pAll,
               cityById := []\<rparr>))\<lparr>provinceById := []\<rparr>))\<lparr>barangaysByCity := []\<rparr>)"
  have "enabled s4 = (\<lambda>_. [])"
    unfolding s4_def
    by (simp add: fold_field [where g = enabled and f = groupBarangay]
        fold_field [where g = enabled and f = indexProvince]
        fold_field [where g = enabled and f = indexCity] initial_state_def)
  then have 4: "\<forall>t. \<forall>e \<in> set (enabled s4 t). snd e" by simp
  have eq: "indexRows bAll cAll pAll =
    fold (\<lambda>b. enabledSet Barangay (b_brgy_id b) True) bAll
      (fold (\<lambda>c. enabledSet City (c_city_id c) True) cAll
        (fold (\<lambda>p. enabledSet Province (p_province_id p) True) pAll s4))"
    by (simp add: indexRows_def Let_def s4_def)
  show ?thesis
    unfolding eq
    by (rule fold_enabledSet_True, rule fold_enabledSet_True, rule fold_enabledSet_True, rule 4)
qed

lemma main_flags:
  assumes "main numLit cmp B C P = Inr s0"
  shows "getEnabled s0 t k"
proof -
  let ?T = "buildTree cmp (loadData numLit B C P)"
  from assms have s0: "s0 = settle (placeObjects ?T)" by (simp add: main_eq)
  have "data (placeObjects ?T) = data ?T" using placeObjects_placed [of ?T] by (simp add: placed_def)
  from data_eqD(7) [OF this] have "enabled s0 = enabled (loadData numLit B C P)"
    unfolding s0 by simp
  with indexRows_flags have "\<forall>e \<in> set (enabled s0 t). snd e" by (simp add: loadData_def)
  then have "map_of (enabled s0 t) k \<noteq> Some False"
    using map_of_SomeD [of "enabled s0 t" k False] by fastforce
  then show ?thesis by (simp add: getEnabled_def)
qed

lemma main_lists:
  assumes "main numLit cmp B C P = Inr s0"
  shows "barangays s0 = barangaysAll numLit B" "cities s0 = citiesAll numLit C"
    "provinces s0 = provincesAll numLit P"
proof -
  let ?T = "buildTree cmp (loadData numLit B C P)"
  from assms have s0: "s0 = settle (placeObjects ?T)" by (simp add: main_eq)
  have "data (placeObjects ?T) = data ?T" using placeObjects_placed [of ?T] by (simp add: placed_def)
  note d = data_eqD [OF this]
  note f = static_eqD [OF settle_frame(1) [of "placeObjects ?T"]]
  show "barangays s0 = barangaysAll numLit B" "cities s0 = citiesAll numLit C"
    "provinces s0 = provincesAll numLit P"
    unfolding s0 by (simp_all add: f d loadData_lists)
qed

lemma filter_single:
  "filter P xs = [x] \<Longrightarrow> x \<in> set xs \<and> P x \<and> (\<forall>y \<in> set xs. P y \<longrightarrow> y = x)"
proof -
  assume "filter P xs = [x]"
  then have "set (filter P xs) = {x}" by simp
  then show ?thesis by auto
qed

text \<open>
  C1, amended: after loading, and after any sequence of checkbox and button events, the
  connector line registered for a barangay that is the only row of the working list with
  its identifier is on the map exactly when the barangay's flag and the flag of its city
  are both true. Without the restriction to an identifier that is not repeated the
  statement fails, as the data with a repeated identifier show at the end.
\<close>

theorem brgy_line_visible_iff:
  assumes "main numLit localeCompare barangaysRaw citiesRaw provincesRaw = Inr s0"
    and "run es s0 = Inr s"
    and "filter (\<lambda>x. b_brgy_id x = b_brgy_id b) (barangays s) = [b]"
    and "map_of (linkBrgyToCity s) (b_brgy_id b) = Some line"
  shows "line \<in> layerLinks s \<longleftrightarrow>
           getEnabled s Barangay (b_brgy_id b) \<and> getEnabled s City (b_city_id b)"
proof -
  let ?b = "base numLit localeCompare barangaysRaw citiesRaw provincesRaw"
  have r: "reached ?b s" using main_run_reached [OF assms(1,2)] .
  note f = static_eqD [OF reached_fields [OF r]]
  from assms(4) have "(b_brgy_id b, line) \<in> set (linkBrgyToCity ?b)"
    by (simp add: f map_of_SomeD)
  from reached_brgy_line [OF r base_dataWf this] obtain r' where
    r': "r' \<in> set (barangays ?b)" "b_brgy_id r' = b_brgy_id b"
      "(line \<in> layerLinks s) =
         (getEnabled s Barangay (b_brgy_id b) \<and> getEnabled s City (b_city_id r'))"
    by blast
  from filter_single [OF assms(3)] r'(1,2) have "r' = b" by (simp add: f)
  with r'(3) show ?thesis by simp
qed

text \<open>
  C2, amended: likewise the connector line registered for a city that is the only row of
  the working list with its identifier is on the map exactly when the city's flag and the
  flag of its province are both true. Without the restriction to an identifier that is not
  repeated the statement fails, as the data with a repeated identifier show at the end.
\<close>

theorem city_line_visible_iff:
  assumes "main numLit localeCompare barangaysRaw citiesRaw provincesRaw = Inr s0"
    and "run es s0 = Inr s"
    and "filter (\<lambda>x. c_city_id x = c_city_id c) (cities s) = [c]"
    and "map_of (linkCityToProv s) (c_city_id c) = Some line"
  shows "line \<in> layerLinks s \<longleftrightarrow>
           getEnabled s City (c_city_id c) \<and> getEnabled s Province (c_province_id c)"
proof -
  let ?b = "base numLit localeCompare barangaysRaw citiesRaw provincesRaw"
  have r: "reached ?b s" using main_run_reached [OF assms(1,2)] .
  note f = static_eqD [OF reached_fields [OF r]]
  from assms(4) have e: "(c_city_id c, line) \<in> set (linkCityToProv ?b)"
    by (simp add: f map_of_SomeD)
  have u: "\<And>y. y \<in> set (cities ?b) \<Longrightarrow> c_city_id y = c_city_id c \<Longrightarrow> y = c"
    using filter_single [OF assms(3)] by (simp add: f)
  from base_dataWf [of numLit localeCompare barangaysRaw citiesRaw provincesRaw] e
  obtain c0 where "c0 \<in> set (cities ?b)" "c_city_id c0 = c_city_id c"
    "truthy_id (c_province_id c0)"
    by (fastforce simp: dataWf_def keysOk_def)
  with u have t: "truthy_id (c_province_id c)" by auto
  from reached_city_line [OF r base_dataWf e] obtain c' where
    c': "c' \<in> set (cities ?b)" "c_city_id c' = c_city_id c"
      "(line \<in> layerLinks s) =
         (getEnabled s City (c_city_id c) \<and> parentOn s Province (c_province_id c'))"
    by blast
  from u c'(1,2) have "c' = c" by simp
  with c'(3) t show ?thesis by (simp add: parentOn_def)
qed

text \<open>
  C3: a change of a province's checkbox, to either value, leaves both link tables as they
  are and changes the visibility of no line other than the city to province lines; in
  particular every barangay to city line stays as it was.
\<close>

theorem province_toggle_frame:
  assumes "main numLit localeCompare barangaysRaw citiesRaw provincesRaw = Inr s0"
    and "run es s0 = Inr s"
    and "onEvent (Change Province pid checked) s = Inr s'"
  shows "linkBrgyToCity s' = linkBrgyToCity s \<and> linkCityToProv s' = linkCityToProv s \<and>
         (\<forall>l. l \<notin> snd ` set (linkCityToProv s) \<longrightarrow> (l \<in> layerLinks s') = (l \<in> layerLinks s)) \<and>
         (\<forall>k l. map_of (linkBrgyToCity s) k = Some l \<longrightarrow>
                 (l \<in> layerLinks s') = (l \<in> layerLinks s))"
proof -
  let ?b = "base numLit localeCompare barangaysRaw citiesRaw provincesRaw"
  have r: "reached ?b s" using main_run_reached [OF assms(1,2)] .
  have "run [Change Province pid checked] s = Inr s'"
    using assms(3) by (simp add: run_def)
  then have r': "reached ?b s'" by (rule run_reached [OF r])
  note f = static_eqD [OF reached_fields [OF r]]
  note f' = static_eqD [OF reached_fields [OF r']]
  have wf: "dataWf ?b" by (rule base_dataWf)
  have en: "getEnabled s' t k = getEnabled s t k" if "t \<noteq> Province" for t k
    using assms(3) that by (auto simp: onEvent_eq setEnabled_def getEnabled_enabledSet)
  have other: "(l \<in> layerLinks s') = (l \<in> layerLinks s)"
    if "l \<notin> snd ` set (linkCityToProv s)" for l
  proof (cases "l \<in> snd ` set (linkBrgyToCity ?b)")
    case True
    then obtain k where k: "(k, l) \<in> set (linkBrgyToCity ?b)" by force
    from reached_brgy_line [OF r wf k] obtain r1 where
      r1: "find (\<lambda>x. b_brgy_id x = k) (barangays ?b) = Some r1"
        "(l \<in> layerLinks s) = (getEnabled s Barangay k \<and> getEnabled s City (b_city_id r1))"
      by blast
    from reached_brgy_line [OF r' wf k] obtain r2 where
      r2: "find (\<lambda>x. b_brgy_id x = k) (barangays ?b) = Some r2"
        "(l \<in> layerLinks s') = (getEnabled s' Barangay k \<and> getEnabled s' City (b_city_id r2))"
      by blast
    from r1(1) r2(1) have "r1 = r2" by simp
    with r1(2) r2(2) show ?thesis by (simp add: en)
  next
    case False
    moreover from that have "l \<notin> snd ` set (linkCityToProv ?b)" by (simp add: f)
    ultimately show ?thesis
      using reached_other_line [OF r] reached_other_line [OF r'] by simp
  qed
  have brgy: "(l \<in> layerLinks s') = (l \<in> layerLinks s)"
    if "map_of (linkBrgyToCity s) k = Some l" for k l
  proof -
    from that have "(k, l) \<in> set (linkBrgyToCity ?b)" by (simp add: f map_of_SomeD)
    moreover from wf have "distinct (map snd (linkBrgyToCity ?b) @ map snd (linkCityToProv ?b))"
      by (simp add: dataWf_def)
    ultimately have "l \<notin> snd ` set (linkCityToProv ?b)" by force
    then show ?thesis using other by (simp add: f)
  qed
  from other brgy show ?thesis by (simp add: f f')
qed

text \<open>
  C5: two sessions from the same loaded data that end with the same flags (as
  \<^verbatim>\<open>getEnabled\<close> reads them) show the same lines, whatever the order and number of
  the events.
\<close>

theorem visibility_depends_on_flags_only:
  assumes "main numLit localeCompare barangaysRaw citiesRaw provincesRaw = Inr s0"
    and "run es1 s0 = Inr s1" and "run es2 s0 = Inr s2"
    and "getEnabled s1 = getEnabled s2"
  shows "layerLinks s1 = layerLinks s2"
  using reached_same_flags [OF main_run_reached [OF assms(1,2)]
      main_run_reached [OF assms(1,3)] base_dataWf assms(4)] .

text \<open>
  C6: setting a node's checkbox to the opposite of its flag and back restores the flags and
  the set of visible lines (for \<open>v = True\<close>: on, off, on).
\<close>

theorem toggle_twice_round_trip:
  assumes "main numLit localeCompare barangaysRaw citiesRaw provincesRaw = Inr s0"
    and "run es s0 = Inr s"
    and "getEnabled s type nid = v"
    and "run [Change type nid (\<not> v), Change type nid v] s = Inr s'"
  shows "layerLinks s' = layerLinks s \<and> getEnabled s' = getEnabled s"
proof -
  let ?b = "base numLit localeCompare barangaysRaw citiesRaw provincesRaw"
  have r: "reached ?b s" using main_run_reached [OF assms(1,2)] .
  have r': "reached ?b s'" using run_reached [OF r assms(4)] .
  have s': "s' = settle (enabledSet type nid v (settle (enabledSet type nid (\<not> v) s)))"
    using assms(4) by (simp add: run_def onEvent_eq setEnabled_def)
  have "getEnabled s' t k = getEnabled s t k" for t k
    unfolding s' using assms(3) by (simp add: getEnabled_enabledSet)
  then have en: "getEnabled s' = getEnabled s" by (simp add: fun_eq_iff)
  from reached_same_flags [OF r' r base_dataWf en] en show ?thesis by simp
qed

text \<open>
  C7, amended: the icon of a registered marker is determined by its node's own flag and
  kind: the kind's normal icon when the flag is true; when it is false, the grey
  \<^verbatim>\<open>disabledAwesome\<close> for a province or a city and \<^verbatim>\<open>brgyIconDisabled\<close> for a
  barangay.
\<close>

theorem marker_icon_of_own_flag:
  assumes "main numLit localeCompare barangaysRaw citiesRaw provincesRaw = Inr s0"
    and "run es s0 = Inr s"
    and "map_of (markers s type) nid = Some m"
  shows "marker_icon s m =
           Some (if getEnabled s type nid
                 then (case type of Province \<Rightarrow> provinceIconEnabled | City \<Rightarrow> cityIconEnabled
                       | Barangay \<Rightarrow> brgyIconEnabled)
                 else (case type of Province \<Rightarrow> disabledAwesome | City \<Rightarrow> disabledAwesome
                       | Barangay \<Rightarrow> brgyIconDisabled))"
proof -
  let ?b = "base numLit localeCompare barangaysRaw citiesRaw provincesRaw"
  have r: "reached ?b s" using main_run_reached [OF assms(1,2)] .
  note f = static_eqD [OF reached_fields [OF r]]
  from assms(3) have "(nid, m) \<in> set (markers ?b type)" by (simp add: f map_of_SomeD)
  from reached_icon [OF r base_dataWf this] show ?thesis
    by (simp add: iconOf_def enabledIcon_def disabledIcon_def)
qed

subsection \<open>The worked example\<close>

lemma ex_main:
  "main decimalLit codeUnitCompare exampleBarangays exampleCities exampleProvinces =
     Inr exampleLoaded"
  by (simp add: exampleLoaded_def exampleMain_def main_eq)

lemma ex_run: "run es s = Inr (after es s)"
proof -
  have "\<exists>s'. run es s = Inr s'"
    by (induction es arbitrary: s) (simp_all add: run_def onEvent_eq)
  then show ?thesis by (auto simp: after_def)
qed

lemma after_Nil: "after [] s = s"
  by (simp add: after_def run_def)

lemma after_Cons: "after (e # es) s = after es (settle (setFlags e s))"
proof -
  have "run (e # es) s = run es (settle (setFlags e s))" by (simp add: run_def onEvent_eq)
  then have "Inr (after (e # es) s) = (Inr (after es (settle (setFlags e s))) :: js_error + ui_state)"
    by (simp add: ex_run)
  then show ?thesis by simp
qed

lemma static_after: "static (after es s) = static s"
  by (induction es arbitrary: s) (simp_all add: after_Nil after_Cons)

lemmas after_fields = static_eqD [OF static_after]

lemma ex_rows:
  "barangaysAll decimalLit exampleBarangays = [exampleB1]"
  "citiesAll decimalLit exampleCities = [exampleC1, exampleC2, exampleC3]"
  "provincesAll decimalLit exampleProvinces = [exampleP1]"
  by code_simp+

lemma ex_loaded:
  "exampleLoaded =
     settle (placeObjects (buildTree codeUnitCompare
       (indexRows [exampleB1] [exampleC1, exampleC2, exampleC3] [exampleP1])))"
  by (simp add: exampleLoaded_def exampleMain_def main_eq loadData_def ex_rows)

lemma ex_barangays: "barangays exampleLoaded = [exampleB1]"
  using main_lists(1) [OF ex_main] by (simp add: ex_rows)

lemma ex_cities: "cities exampleLoaded = [exampleC1, exampleC2, exampleC3]"
  using main_lists(2) [OF ex_main] by (simp add: ex_rows)

lemma ex_linkBrgyToCity: "linkBrgyToCity exampleLoaded = [(Some (lit ''B1''), 4)]"
  unfolding ex_loaded by code_simp

lemma ex_linkCityToProv:
  "linkCityToProv exampleLoaded = [(Some (lit ''C1''), 5), (Some (lit ''C3''), 6)]"
  unfolding ex_loaded by code_simp

lemma ex_markers:
  "markers exampleLoaded Barangay = [(Some (lit ''B1''), 3)]"
  "markers exampleLoaded City = [(Some (lit ''C1''), 1), (Some (lit ''C3''), 2)]"
  unfolding ex_loaded by code_simp+

lemma ex_layerLinks: "layerLinks exampleLoaded = {4, 5, 6}"
  unfolding ex_loaded by code_simp

text \<open>
  The theorems above at the example: unchecking the city C1 hides the line of B1.
\<close>

theorem brgy_line_visible_iff_witness:
  "main decimalLit codeUnitCompare exampleBarangays exampleCities exampleProvinces =
     Inr exampleLoaded \<and>
   run [Change City (Some (lit ''C1'')) False] exampleLoaded =
     Inr (after [Change City (Some (lit ''C1'')) False] exampleLoaded) \<and>
   filter (\<lambda>x. b_brgy_id x = b_brgy_id exampleB1)
     (barangays (after [Change City (Some (lit ''C1'')) False] exampleLoaded)) = [exampleB1] \<and>
   map_of (linkBrgyToCity (after [Change City (Some (lit ''C1'')) False] exampleLoaded))
     (b_brgy_id exampleB1) = Some 4 \<and>
   getEnabled (after [Change City (Some (lit ''C1'')) False] exampleLoaded) Barangay
     (b_brgy_id exampleB1) \<and>
   \<not> getEnabled (after [Change City (Some (lit ''C1'')) False] exampleLoaded) City
     (b_city_id exampleB1) \<and>
   4 \<notin> layerLinks (after [Change City (Some (lit ''C1'')) False] exampleLoaded)"
proof -
  let ?s = "after [Change City (Some (lit ''C1'')) False] exampleLoaded"
  note m = ex_main
  have r: "run [Change City (Some (lit ''C1'')) False] exampleLoaded = Inr ?s" by (rule ex_run)
  have f: "filter (\<lambda>x. b_brgy_id x = b_brgy_id exampleB1) (barangays ?s) = [exampleB1]"
    by (simp add: after_fields ex_barangays)
  have l: "map_of (linkBrgyToCity ?s) (b_brgy_id exampleB1) = Some 4"
    by (simp add: after_fields ex_linkBrgyToCity exampleB1_def)
  have b: "getEnabled ?s Barangay (b_brgy_id exampleB1)"
    using main_flags [OF ex_main]
    by (simp add: after_Cons after_Nil setEnabled_def getEnabled_enabledSet exampleB1_def)
  have c: "\<not> getEnabled ?s City (b_city_id exampleB1)"
    by (simp add: after_Cons after_Nil setEnabled_def getEnabled_enabledSet exampleB1_def)
  from brgy_line_visible_iff [OF m r f l] c have "4 \<notin> layerLinks ?s" by simp
  with m r f l b c show ?thesis by simp
qed

text \<open>
  Unchecking the province P1 hides the line of the city C1.
\<close>

theorem city_line_visible_iff_witness:
  "main decimalLit codeUnitCompare exampleBarangays exampleCities exampleProvinces =
     Inr exampleLoaded \<and>
   run [Change Province (Some (lit ''P1'')) False] exampleLoaded =
     Inr (after [Change Province (Some (lit ''P1'')) False] exampleLoaded) \<and>
   filter (\<lambda>x. c_city_id x = c_city_id exampleC1)
     (cities (after [Change Province (Some (lit ''P1'')) False] exampleLoaded)) = [exampleC1] \<and>
   map_of (linkCityToProv (after [Change Province (Some (lit ''P1'')) False] exampleLoaded))
     (c_city_id exampleC1) = Some 5 \<and>
   getEnabled (after [Change Province (Some (lit ''P1'')) False] exampleLoaded) City
     (c_city_id exampleC1) \<and>
   \<not> getEnabled (after [Change Province (Some (lit ''P1'')) False] exampleLoaded) Province
     (c_province_id exampleC1) \<and>
   5 \<notin> layerLinks (after [Change Province (Some (lit ''P1'')) False] exampleLoaded)"
proof -
  let ?s = "after [Change Province (Some (lit ''P1'')) False] exampleLoaded"
  note m = ex_main
  have r: "run [Change Province (Some (lit ''P1'')) False] exampleLoaded = Inr ?s"
    by (rule ex_run)
  have ne: "lit ''C2'' \<noteq> lit ''C1''" "lit ''C3'' \<noteq> lit ''C1''" by (simp_all add: lit_def)
  have f: "filter (\<lambda>x. c_city_id x = c_city_id exampleC1) (cities ?s) = [exampleC1]"
    using ne by (simp add: after_fields ex_cities exampleC1_def exampleC2_def exampleC3_def)
  have l: "map_of (linkCityToProv ?s) (c_city_id exampleC1) = Some 5"
    by (simp add: after_fields ex_linkCityToProv exampleC1_def)
  have c: "getEnabled ?s City (c_city_id exampleC1)"
    using main_flags [OF ex_main]
    by (simp add: after_Cons after_Nil setEnabled_def getEnabled_enabledSet exampleC1_def)
  have p: "\<not> getEnabled ?s Province (c_province_id exampleC1)"
    by (simp add: after_Cons after_Nil setEnabled_def getEnabled_enabledSet exampleC1_def)
  from city_line_visible_iff [OF m r f l] p have "5 \<notin> layerLinks ?s" by simp
  with m r f l c p show ?thesis by simp
qed

text \<open>
  Unchecking the province P1 leaves the line of the barangay B1 on the map.
\<close>

theorem province_toggle_frame_witness:
  "main decimalLit codeUnitCompare exampleBarangays exampleCities exampleProvinces =
     Inr exampleLoaded \<and>
   run [] exampleLoaded = Inr exampleLoaded \<and>
   onEvent (Change Province (Some (lit ''P1'')) False) exampleLoaded =
     Inr (after [Change Province (Some (lit ''P1'')) False] exampleLoaded) \<and>
   map_of (linkBrgyToCity exampleLoaded) (Some (lit ''B1'')) = Some 4 \<and>
   4 \<in> layerLinks exampleLoaded \<and>
   4 \<in> layerLinks (after [Change Province (Some (lit ''P1'')) False] exampleLoaded) \<and>
   5 \<in> layerLinks exampleLoaded"
proof -
  let ?s = "after [Change Province (Some (lit ''P1'')) False] exampleLoaded"
  note m = ex_main
  have r: "run [] exampleLoaded = Inr exampleLoaded" by (simp add: run_def)
  have e: "onEvent (Change Province (Some (lit ''P1'')) False) exampleLoaded = Inr ?s"
    using ex_run [of "[Change Province (Some (lit ''P1'')) False]" exampleLoaded]
    by (simp add: run_def split: sum.splits)
  have l: "map_of (linkBrgyToCity exampleLoaded) (Some (lit ''B1'')) = Some 4"
    by (simp add: ex_linkBrgyToCity)
  have a: "4 \<in> layerLinks exampleLoaded" by (simp add: ex_layerLinks)
  have b: "5 \<in> layerLinks exampleLoaded" by (simp add: ex_layerLinks)
  from province_toggle_frame [OF m r e] l a have "4 \<in> layerLinks ?s" by blast
  with m r e l a b show ?thesis by simp
qed

text \<open>
  Unchecking B1 and C1 in either order ends with the same lines.
\<close>

theorem visibility_depends_on_flags_only_witness:
  "main decimalLit codeUnitCompare exampleBarangays exampleCities exampleProvinces =
     Inr exampleLoaded \<and>
   run [Change Barangay (Some (lit ''B1'')) False, Change City (Some (lit ''C1'')) False]
     exampleLoaded =
     Inr (after [Change Barangay (Some (lit ''B1'')) False,
                 Change City (Some (lit ''C1'')) False] exampleLoaded) \<and>
   run [Change City (Some (lit ''C1'')) False, Change Barangay (Some (lit ''B1'')) False]
     exampleLoaded =
     Inr (after [Change City (Some (lit ''C1'')) False,
                 Change Barangay (Some (lit ''B1'')) False] exampleLoaded) \<and>
   getEnabled (after [Change Barangay (Some (lit ''B1'')) False,
                      Change City (Some (lit ''C1'')) False] exampleLoaded) =
   getEnabled (after [Change City (Some (lit ''C1'')) False,
                      Change Barangay (Some (lit ''B1'')) False] exampleLoaded) \<and>
   layerLinks (after [Change Barangay (Some (lit ''B1'')) False,
                      Change City (Some (lit ''C1'')) False] exampleLoaded) =
   layerLinks (after [Change City (Some (lit ''C1'')) False,
                      Change Barangay (Some (lit ''B1'')) False] exampleLoaded)"
proof -
  let ?s1 = "after [Change Barangay (Some (lit ''B1'')) False,
                    Change City (Some (lit ''C1'')) False] exampleLoaded"
  let ?s2 = "after [Change City (Some (lit ''C1'')) False,
                    Change Barangay (Some (lit ''B1'')) False] exampleLoaded"
  note m = ex_main
  have r1: "run [Change Barangay (Some (lit ''B1'')) False, Change City (Some (lit ''C1'')) False]
              exampleLoaded = Inr ?s1" by (rule ex_run)
  have r2: "run [Change City (Some (lit ''C1'')) False, Change Barangay (Some (lit ''B1'')) False]
              exampleLoaded = Inr ?s2" by (rule ex_run)
  have g: "getEnabled ?s1 = getEnabled ?s2"
    by (simp add: fun_eq_iff after_Cons after_Nil setEnabled_def getEnabled_enabledSet)
  from visibility_depends_on_flags_only [OF m r1 r2 g] m r1 r2 g show ?thesis by simp
qed

text \<open>
  Unchecking and rechecking the city C1 restores the loaded picture.
\<close>

theorem toggle_twice_round_trip_witness:
  "main decimalLit codeUnitCompare exampleBarangays exampleCities exampleProvinces =
     Inr exampleLoaded \<and>
   run [] exampleLoaded = Inr exampleLoaded \<and>
   getEnabled exampleLoaded City (Some (lit ''C1'')) \<and>
   run [Change City (Some (lit ''C1'')) False, Change City (Some (lit ''C1'')) True]
     exampleLoaded =
     Inr (after [Change City (Some (lit ''C1'')) False,
                 Change City (Some (lit ''C1'')) True] exampleLoaded) \<and>
   layerLinks (after [Change City (Some (lit ''C1'')) False,
                      Change City (Some (lit ''C1'')) True] exampleLoaded) =
   layerLinks exampleLoaded"
proof -
  let ?s = "after [Change City (Some (lit ''C1'')) False,
                   Change City (Some (lit ''C1'')) True] exampleLoaded"
  note m = ex_main
  have r: "run [] exampleLoaded = Inr exampleLoaded" by (simp add: run_def)
  have g: "getEnabled exampleLoaded City (Some (lit ''C1'')) = True"
    using main_flags [OF ex_main] by simp
  have t: "run [Change City (Some (lit ''C1'')) (\<not> True), Change City (Some (lit ''C1'')) True]
             exampleLoaded = Inr ?s"
    using ex_run [of "[Change City (Some (lit ''C1'')) False,
                       Change City (Some (lit ''C1'')) True]" exampleLoaded]
    by simp
  from toggle_twice_round_trip [OF m r g t] m r g t show ?thesis by simp
qed

text \<open>
  The unchecked barangay B1 carries \<^verbatim>\<open>brgyIconDisabled\<close>.
\<close>

theorem marker_icon_of_own_flag_witness:
  "main decimalLit codeUnitCompare exampleBarangays exampleCities exampleProvinces =
     Inr exampleLoaded \<and>
   run [Change Barangay (Some (lit ''B1'')) False, Change City (Some (lit ''C1'')) False] exampleLoaded = Inr (after [Change Barangay (Some (lit ''B1'')) False, Change City (Some (lit ''C1'')) False] exampleLoaded) \<and>
   map_of (markers (after [Change Barangay (Some (lit ''B1'')) False, Change City (Some (lit ''C1'')) False] exampleLoaded) Barangay) (Some (lit ''B1'')) = Some 3 \<and>
   \<not> getEnabled (after [Change Barangay (Some (lit ''B1'')) False, Change City (Some (lit ''C1'')) False] exampleLoaded) Barangay (Some (lit ''B1'')) \<and>
   marker_icon (after [Change Barangay (Some (lit ''B1'')) False, Change City (Some (lit ''C1'')) False] exampleLoaded) 3 = Some brgyIconDisabled"
proof -
  let ?s = "after [Change Barangay (Some (lit ''B1'')) False, Change City (Some (lit ''C1'')) False] exampleLoaded"
  note m = ex_main
  have r: "run [Change Barangay (Some (lit ''B1'')) False, Change City (Some (lit ''C1'')) False] exampleLoaded = Inr ?s" by (rule ex_run)
  have k: "map_of (markers ?s Barangay) (Some (lit ''B1'')) = Some 3"
    by (simp add: after_fields ex_markers)
  have g: "\<not> getEnabled ?s Barangay (Some (lit ''B1''))"
    by (simp add: after_Cons after_Nil setEnabled_def getEnabled_enabledSet)
  from marker_icon_of_own_flag [OF m r k] g have "marker_icon ?s 3 = Some brgyIconDisabled"
    by simp
  with m r k g show ?thesis by simp
qed

text \<open>
  C7 as stated fails: with the barangay B1 and the city C1 both unchecked, the two markers
  carry different grey icons, so the disabled icon is not one icon shared by all three
  kinds.
\<close>

theorem disabled_icons_differ:
  "main decimalLit codeUnitCompare exampleBarangays exampleCities exampleProvinces =
     Inr exampleLoaded \<and>
   run [Change Barangay (Some (lit ''B1'')) False, Change City (Some (lit ''C1'')) False] exampleLoaded = Inr (after [Change Barangay (Some (lit ''B1'')) False, Change City (Some (lit ''C1'')) False] exampleLoaded) \<and>
   map_of (markers (after [Change Barangay (Some (lit ''B1'')) False, Change City (Some (lit ''C1'')) False] exampleLoaded) Barangay) (Some (lit ''B1'')) = Some 3 \<and>
   map_of (markers (after [Change Barangay (Some (lit ''B1'')) False, Change City (Some (lit ''C1'')) False] exampleLoaded) City) (Some (lit ''C1'')) = Some 1 \<and>
   \<not> getEnabled (after [Change Barangay (Some (lit ''B1'')) False, Change City (Some (lit ''C1'')) False] exampleLoaded) Barangay (Some (lit ''B1'')) \<and>
   \<not> getEnabled (after [Change Barangay (Some (lit ''B1'')) False, Change City (Some (lit ''C1'')) False] exampleLoaded) City (Some (lit ''C1'')) \<and>
   marker_icon (after [Change Barangay (Some (lit ''B1'')) False, Change City (Some (lit ''C1'')) False] exampleLoaded) 3 = Some brgyIconDisabled \<and>
   marker_icon (after [Change Barangay (Some (lit ''B1'')) False, Change City (Some (lit ''C1'')) False] exampleLoaded) 1 = Some disabledAwesome \<and>
   brgyIconDisabled \<noteq> disabledAwesome"
proof -
  let ?s = "after [Change Barangay (Some (lit ''B1'')) False, Change City (Some (lit ''C1'')) False] exampleLoaded"
  note m = ex_main
  have r: "run [Change Barangay (Some (lit ''B1'')) False, Change City (Some (lit ''C1'')) False] exampleLoaded = Inr ?s" by (rule ex_run)
  have 1: "map_of (markers ?s Barangay) (Some (lit ''B1'')) = Some 3"
    by (simp add: after_fields ex_markers)
  have 2: "map_of (markers ?s City) (Some (lit ''C1'')) = Some 1"
    by (simp add: after_fields ex_markers)
  have 3: "\<not> getEnabled ?s Barangay (Some (lit ''B1''))"
    by (simp add: after_Cons after_Nil setEnabled_def getEnabled_enabledSet)
  have 4: "\<not> getEnabled ?s City (Some (lit ''C1''))"
    by (simp add: after_Cons after_Nil setEnabled_def getEnabled_enabledSet)
  have 5: "marker_icon ?s 3 = Some brgyIconDisabled"
    unfolding ex_loaded by code_simp
  have 6: "marker_icon ?s 1 = Some disabledAwesome"
    unfolding ex_loaded by code_simp
  from m r 1 2 3 4 5 6 show ?thesis by simp
qed

subsection \<open>Normalisation of the rows\<close>

lemma last_dropWhile: "dropWhile P xs \<noteq> [] \<Longrightarrow> last (dropWhile P xs) = last xs"
  by (induction xs) (auto split: if_splits)

lemma trim_trimmedOf: "trimmedOf s (trim s)"
proof -
  let ?ws = isWhiteSpace
  let ?mid = "dropWhile ?ws s"
  let ?pre = "takeWhile ?ws s"
  let ?post = "rev (takeWhile ?ws (rev ?mid))"
  have t: "trim s = rev (dropWhile ?ws (rev ?mid))" by (simp add: trim_def)
  have "rev (dropWhile ?ws (rev ?mid)) @ rev (takeWhile ?ws (rev ?mid)) =
          rev (takeWhile ?ws (rev ?mid) @ dropWhile ?ws (rev ?mid))"
    by (simp only: rev_append)
  also have "\<dots> = rev (rev ?mid)" by (simp only: takeWhile_dropWhile_id)
  finally have mid: "?mid = trim s @ ?post" by (simp add: t)
  have "s = ?pre @ ?mid" by simp
  with mid have split: "s = ?pre @ trim s @ ?post" by simp
  have pre: "list_all ?ws ?pre" by (auto simp: list_all_iff dest: set_takeWhileD)
  have post: "list_all ?ws ?post" by (auto simp: list_all_iff dest: set_takeWhileD)
  have ends: "\<not> ?ws (hd (trim s)) \<and> \<not> ?ws (last (trim s))" if ne: "trim s \<noteq> []"
  proof -
    from ne have d: "dropWhile ?ws (rev ?mid) \<noteq> []" by (simp add: t)
    have m: "?mid \<noteq> []"
    proof
      assume a: "?mid = []"
      have "dropWhile ?ws (rev ?mid) = []" unfolding a by simp
      with d show False by contradiction
    qed
    have "last (trim s) = hd (dropWhile ?ws (rev ?mid))" using d by (simp add: t last_rev)
    moreover have "\<not> ?ws (hd (dropWhile ?ws (rev ?mid)))" using d by (rule hd_dropWhile)
    moreover have "hd (trim s) = last (dropWhile ?ws (rev ?mid))" using d by (simp add: t hd_rev)
    moreover have "last (dropWhile ?ws (rev ?mid)) = last (rev ?mid)"
      using d by (rule last_dropWhile)
    moreover have "last (rev ?mid) = hd ?mid" using m by (simp add: last_rev)
    moreover have "\<not> ?ws (hd ?mid)" using m by (rule hd_dropWhile)
    ultimately show ?thesis by simp
  qed
  from split pre post ends show ?thesis unfolding trimmedOf_def by blast
qed

lemma trimCell_trimmedOf: "trimmedOf (cellText x) (trimCell x)"
  by (simp add: trimCell_def cellText_def trim_trimmedOf)

lemma normalizeId_trimmedId: "trimmedId x (normalizeId x)"
  using trimCell_trimmedOf [of x]
  by (auto simp: trimmedId_def normalizeId_def Let_def)

lemma toNum_NaN: "jsNumber numLit x = JNaN \<Longrightarrow> toNum numLit x = None"
  by (simp add: toNum_def)

text \<open>
  C8: in each of the three normalisations every identifier is the trimmed cell, or
  \<^verbatim>\<open>null\<close> when nothing is left of it, every name is the trimmed cell, and a latitude
  or longitude whose cell \<^verbatim>\<open>Number\<close> reads as \<^verbatim>\<open>NaN\<close> is \<^verbatim>\<open>null\<close>.
\<close>

theorem rows_trimmed_and_numbers_nulled:
  "trimmedId (r Col_brgy_id) (b_brgy_id (barangayOfRow numLit r)) \<and>
   trimmedId (r Col_city_id) (b_city_id (barangayOfRow numLit r)) \<and>
   trimmedOf (cellText (r Col_barangay)) (b_barangay (barangayOfRow numLit r)) \<and>
   trimmedOf (cellText (r Col_city)) (b_city (barangayOfRow numLit r)) \<and>
   trimmedId (r Col_city_id) (c_city_id (cityOfRow numLit r)) \<and>
   trimmedId (r Col_province_id) (c_province_id (cityOfRow numLit r)) \<and>
   trimmedOf (cellText (r Col_city)) (c_city (cityOfRow numLit r)) \<and>
   trimmedOf (cellText (r Col_province)) (c_province (cityOfRow numLit r)) \<and>
   trimmedId (r Col_province_id) (p_province_id (provinceOfRow numLit r)) \<and>
   trimmedOf (cellText (r Col_province)) (p_province (provinceOfRow numLit r)) \<and>
   (jsNumber numLit (r Col_lat) = JNaN \<longrightarrow>
      b_lat (barangayOfRow numLit r) = None \<and> c_lat (cityOfRow numLit r) = None \<and>
      p_lat (provinceOfRow numLit r) = None) \<and>
   (jsNumber numLit (r Col_lon) = JNaN \<longrightarrow>
      b_lon (barangayOfRow numLit r) = None \<and> c_lon (cityOfRow numLit r) = None \<and>
      p_lon (provinceOfRow numLit r) = None)"
  by (simp add: barangayOfRow_def cityOfRow_def provinceOfRow_def normalizeId_trimmedId
      trimCell_trimmedOf toNum_NaN)

text \<open>
  In the example the name cell \<^verbatim>\<open>" Apas "\<close> of the first barangay row becomes
  \<^verbatim>\<open>"Apas"\<close>, and the latitude cell \<^verbatim>\<open>"n/a"\<close> of the third becomes \<^verbatim>\<open>null\<close>.
\<close>

theorem rows_trimmed_and_numbers_nulled_witness:
  "(exampleBarangays ! 0) Col_barangay = Some (lit '' Apas '') \<and>
   b_barangay (barangayOfRow decimalLit (exampleBarangays ! 0)) = lit ''Apas'' \<and>
   trimmedOf (lit '' Apas '') (lit ''Apas'') \<and>
   (exampleBarangays ! 2) Col_lat = Some (lit ''n/a'') \<and>
   jsNumber decimalLit ((exampleBarangays ! 2) Col_lat) = JNaN \<and>
   b_lat (barangayOfRow decimalLit (exampleBarangays ! 2)) = None"
proof -
  have c: "(exampleBarangays ! 0) Col_barangay = Some (lit '' Apas '')" by code_simp
  have v: "b_barangay (barangayOfRow decimalLit (exampleBarangays ! 0)) = lit ''Apas''"
    by code_simp
  have l: "(exampleBarangays ! 2) Col_lat = Some (lit ''n/a'')" by code_simp
  have n: "jsNumber decimalLit ((exampleBarangays ! 2) Col_lat) = JNaN" by code_simp
  from rows_trimmed_and_numbers_nulled [of "exampleBarangays ! 0" decimalLit] c v
  have t: "trimmedOf (lit '' Apas '') (lit ''Apas'')" by (simp add: cellText_def)
  from rows_trimmed_and_numbers_nulled [of "exampleBarangays ! 2" decimalLit] n
  have "b_lat (barangayOfRow decimalLit (exampleBarangays ! 2)) = None" by simp
  with c v t l n show ?thesis by simp
qed

subsection \<open>The barangay filter\<close>







lemma buildNodeRow_fields [simp]:
  "row_type (buildNodeRow s t k l) = t" "row_id (buildNodeRow s t k l) = k"
  by (simp_all add: buildNodeRow_def)








text \<open>
  C4 at the example: the barangay row B3 has an identifier and a city but no coordinates.
  It is not kept for the tree: the working list holds B1 only and no row of the tree
  carries B3. The city C2, also without coordinates, is kept and is in the tree, without
  a marker and without a line.
\<close>

theorem barangay_without_coordinates_dropped:
  "main decimalLit codeUnitCompare exampleBarangays exampleCities exampleProvinces =
     Inr exampleLoaded \<and>
   (exampleBarangays ! 2) Col_lat = Some (lit ''n/a'') \<and>
   barangayOfRow decimalLit (exampleBarangays ! 2) =
     \<lparr> b_brgy_id = Some (lit ''B3''), b_city_id = Some (lit ''C1''), b_barangay = lit ''Luz'',
       b_city = lit ''Cebu City'', b_lat = None, b_lon = None \<rparr> \<and>
   barangays exampleLoaded = [exampleB1] \<and>
   map row_id (treeNodes (tree exampleLoaded)) =
     [Some (lit ''P1''), Some (lit ''C3''), Some (lit ''C1''), Some (lit ''B1''),
      Some (lit ''C2'')] \<and>
   cities exampleLoaded = [exampleC1, exampleC2, exampleC3] \<and>
   c_lat exampleC2 = None \<and>
   map_of (markers exampleLoaded City) (Some (lit ''C2'')) = None \<and>
   map_of (linkCityToProv exampleLoaded) (Some (lit ''C2'')) = None"
proof -
  have 1: "(exampleBarangays ! 2) Col_lat = Some (lit ''n/a'')" by code_simp
  have 2: "barangayOfRow decimalLit (exampleBarangays ! 2) =
     \<lparr> b_brgy_id = Some (lit ''B3''), b_city_id = Some (lit ''C1''), b_barangay = lit ''Luz'',
       b_city = lit ''Cebu City'', b_lat = None, b_lon = None \<rparr>" by code_simp
  have 3: "map row_id (treeNodes (tree exampleLoaded)) =
     [Some (lit ''P1''), Some (lit ''C3''), Some (lit ''C1''), Some (lit ''B1''),
      Some (lit ''C2'')]"
    unfolding ex_loaded by code_simp
  have ne: "lit ''C1'' \<noteq> lit ''C2''" "lit ''C3'' \<noteq> lit ''C2''" by (simp_all add: lit_def)
  have 4: "map_of (markers exampleLoaded City) (Some (lit ''C2'')) = None"
    using ne by (simp add: ex_markers)
  have 5: "map_of (linkCityToProv exampleLoaded) (Some (lit ''C2'')) = None"
    using ne by (simp add: ex_linkCityToProv)
  from ex_main 1 2 ex_barangays 3 ex_cities 4 5 show ?thesis by (simp add: exampleC2_def)
qed

subsection \<open>Repeated identifiers\<close>

lemma dup_main:
  "main decimalLit codeUnitCompare dupBarangays dupCities exampleProvinces = Inr dupLoaded"
  by (simp add: dupLoaded_def main_eq)

lemma dup_rows:
  "barangaysAll decimalLit dupBarangays = [dupB1, dupB2]"
  "citiesAll decimalLit dupCities = [dupC1, dupC2]"
  by code_simp+

lemma dup_loaded:
  "dupLoaded =
     settle (placeObjects (buildTree codeUnitCompare
       (indexRows [dupB1, dupB2] [dupC1, dupC2] [exampleP1])))"
  by (simp add: dupLoaded_def main_eq loadData_def dup_rows ex_rows)

lemma dup_barangays: "barangays dupLoaded = [dupB1, dupB2]"
  using main_lists(1) [OF dup_main] by (simp add: dup_rows)

lemma dup_linkBrgyToCity: "linkBrgyToCity dupLoaded = [(Some (lit ''B1''), 6)]"
  unfolding dup_loaded by code_simp

lemma dup_line: "line_latlngs dupLoaded 6 = Some ((20, 123), (21, 124))"
  unfolding dup_loaded by code_simp

lemma dup_visible: "6 \<in> layerLinks (after [Change City (Some (lit ''C2'')) False] dupLoaded)"
  unfolding dup_loaded by code_simp

lemma twin_main:
  "main decimalLit codeUnitCompare [] twinCities exampleProvinces = Inr twinLoaded"
  by (simp add: twinLoaded_def main_eq)

lemma twin_rows:
  "barangaysAll decimalLit [] = []"
  "citiesAll decimalLit twinCities = [twinC1, twinC1']"
  by code_simp+

lemma twin_loaded:
  "twinLoaded =
     settle (placeObjects (buildTree codeUnitCompare
       (indexRows [] [twinC1, twinC1'] [exampleP1])))"
  by (simp add: twinLoaded_def main_eq loadData_def twin_rows ex_rows)

lemma twin_cities: "cities twinLoaded = [twinC1, twinC1']"
  using main_lists(2) [OF twin_main] by (simp add: twin_rows)

lemma twin_linkCityToProv: "linkCityToProv twinLoaded = [(Some (lit ''C1''), 3)]"
  unfolding twin_loaded by code_simp

lemma twin_line: "line_latlngs twinLoaded 3 = Some ((11, 124), (12, 125))"
  unfolding twin_loaded by code_simp

lemma twin_visible:
  "3 \<in> layerLinks (after [Change Province (Some (lit ''P1'')) False] twinLoaded)"
  unfolding twin_loaded by code_simp

text \<open>
  C1 as stated fails when an identifier is repeated. Both rows of the second data set are
  in the working list; the line registered for B1 is the line of the second row, from
  (20, 123) to the city C2 at (21, 124). With C2 unchecked it is still on the map.
\<close>

theorem repeated_brgy_id_line_stays:
  "main decimalLit codeUnitCompare dupBarangays dupCities exampleProvinces = Inr dupLoaded \<and>
   run [Change City (Some (lit ''C2'')) False] dupLoaded =
     Inr (after [Change City (Some (lit ''C2'')) False] dupLoaded) \<and>
   barangays (after [Change City (Some (lit ''C2'')) False] dupLoaded) = [dupB1, dupB2] \<and>
   map_of (linkBrgyToCity (after [Change City (Some (lit ''C2'')) False] dupLoaded))
     (b_brgy_id dupB2) = Some 6 \<and>
   line_latlngs (after [Change City (Some (lit ''C2'')) False] dupLoaded) 6 =
     Some ((20, 123), (21, 124)) \<and>
   getEnabled (after [Change City (Some (lit ''C2'')) False] dupLoaded) Barangay
     (b_brgy_id dupB2) \<and>
   \<not> getEnabled (after [Change City (Some (lit ''C2'')) False] dupLoaded) City
     (b_city_id dupB2) \<and>
   6 \<in> layerLinks (after [Change City (Some (lit ''C2'')) False] dupLoaded)"
proof -
  let ?s = "after [Change City (Some (lit ''C2'')) False] dupLoaded"
  have r: "run [Change City (Some (lit ''C2'')) False] dupLoaded = Inr ?s" by (rule ex_run)
  have b: "barangays ?s = [dupB1, dupB2]" by (simp add: after_fields dup_barangays)
  have l: "map_of (linkBrgyToCity ?s) (b_brgy_id dupB2) = Some 6"
    by (simp add: after_fields dup_linkBrgyToCity dupB2_def)
  have o: "line_latlngs ?s 6 = Some ((20, 123), (21, 124))"
    by (simp add: after_fields dup_line)
  have g: "getEnabled ?s Barangay (b_brgy_id dupB2)"
    using main_flags [OF dup_main]
    by (simp add: after_Cons after_Nil setEnabled_def getEnabled_enabledSet dupB2_def)
  have c: "\<not> getEnabled ?s City (b_city_id dupB2)"
    by (simp add: after_Cons after_Nil setEnabled_def getEnabled_enabledSet dupB2_def)
  from dup_main r b l o g c dup_visible show ?thesis by simp
qed

text \<open>
  C2 as stated fails when an identifier is repeated. Both rows of the third data set are in
  the working list; the line registered for C1 is the line of the first row, from
  (11, 124) to the province P1 at (12, 125). With P1 unchecked it is still on the map.
\<close>

theorem repeated_city_id_line_stays:
  "main decimalLit codeUnitCompare [] twinCities exampleProvinces = Inr twinLoaded \<and>
   run [Change Province (Some (lit ''P1'')) False] twinLoaded =
     Inr (after [Change Province (Some (lit ''P1'')) False] twinLoaded) \<and>
   cities (after [Change Province (Some (lit ''P1'')) False] twinLoaded) = [twinC1, twinC1'] \<and>
   map_of (linkCityToProv (after [Change Province (Some (lit ''P1'')) False] twinLoaded))
     (c_city_id twinC1) = Some 3 \<and>
   line_latlngs (after [Change Province (Some (lit ''P1'')) False] twinLoaded) 3 =
     Some ((11, 124), (12, 125)) \<and>
   getEnabled (after [Change Province (Some (lit ''P1'')) False] twinLoaded) City
     (c_city_id twinC1) \<and>
   \<not> getEnabled (after [Change Province (Some (lit ''P1'')) False] twinLoaded) Province
     (c_province_id twinC1) \<and>
   3 \<in> layerLinks (after [Change Province (Some (lit ''P1'')) False] twinLoaded)"
proof -
  let ?s = "after [Change Province (Some (lit ''P1'')) False] twinLoaded"
  have r: "run [Change Province (Some (lit ''P1'')) False] twinLoaded = Inr ?s"
    by (rule ex_run)
  have b: "cities ?s = [twinC1, twinC1']" by (simp add: after_fields twin_cities)
  have l: "map_of (linkCityToProv ?s) (c_city_id twinC1) = Some 3"
    by (simp add: after_fields twin_linkCityToProv twinC1_def)
  have o: "line_latlngs ?s 3 = Some ((11, 124), (12, 125))"
    by (simp add: after_fields twin_line)
  have g: "getEnabled ?s City (c_city_id twinC1)"
    using main_flags [OF twin_main]
    by (simp add: after_Cons after_Nil setEnabled_def getEnabled_enabledSet twinC1_def)
  have c: "\<not> getEnabled ?s Province (c_province_id twinC1)"
    by (simp add: after_Cons after_Nil setEnabled_def getEnabled_enabledSet twinC1_def)
  from twin_main r b l o g c twin_visible show ?thesis by simp
qed

end
